theory Spec2Isabelle
  imports Complex_Main "HOL-Library.Word"
begin

section \<open>JavaScript strings\<close>

text \<open>
  A JavaScript string is a sequence of UTF-16 code units; \<open>length\<close>, \<open>substring\<close>,
  \<open>split\<close> and \<open>===\<close> all work on code units.  String literals of the source are
  written \<open>js ''...''\<close>.
\<close>

type_synonym jschar = "16 word"
type_synonym jsstring = "jschar list"

definition js :: "string \<Rightarrow> jsstring" where
  "js s = map of_char s"

text \<open>
  \<open>String.prototype.toLowerCase\<close> and \<open>toUpperCase\<close> follow the Unicode case tables
  of the JavaScript engine, which are not part of the repository: every function that
  calls them takes them from a \<open>Platform\<close>.
\<close>

record Platform =
  toLowerCase :: "jsstring \<Rightarrow> jsstring"
  toUpperCase :: "jsstring \<Rightarrow> jsstring"

text \<open>
  On strings of ASCII code units the two built-ins map the letters \<open>A-Z\<close> and \<open>a-z\<close>
  onto each other and leave every other code unit unchanged.  \<open>asciiPlatform\<close> does
  this and nothing more; it is used to evaluate examples whose strings are ASCII.
\<close>

definition lowerChar :: "jschar \<Rightarrow> jschar" where
  "lowerChar c = (if 65 \<le> c \<and> c \<le> 90 then c + 32 else c)"

definition upperChar :: "jschar \<Rightarrow> jschar" where
  "upperChar c = (if 97 \<le> c \<and> c \<le> 122 then c - 32 else c)"

definition asciiPlatform :: Platform where
  "asciiPlatform = \<lparr>toLowerCase = map lowerChar, toUpperCase = map upperChar\<rparr>"

definition isAscii :: "jsstring \<Rightarrow> bool" where
  "isAscii s = list_all (\<lambda>c. c < 128) s"

text \<open>What a platform does on ASCII strings.\<close>

definition asciiCase :: "Platform \<Rightarrow> bool" where
  "asciiCase P =
     (\<forall>s. isAscii s \<longrightarrow> toLowerCase P s = map lowerChar s \<and> toUpperCase P s = map upperChar s)"

text \<open>\<open>String.prototype.trim\<close>: strips WhiteSpace and LineTerminator code units.\<close>

definition isSpace :: "jschar \<Rightarrow> bool" where
  "isSpace c \<longleftrightarrow>
     c = 9 \<or> c = 10 \<or> c = 11 \<or> c = 12 \<or> c = 13 \<or> c = 32 \<or> c = 0xA0 \<or> c = 0x1680 \<or>
     (0x2000 \<le> c \<and> c \<le> 0x200A) \<or> c = 0x2028 \<or> c = 0x2029 \<or> c = 0x202F \<or>
     c = 0x205F \<or> c = 0x3000 \<or> c = 0xFEFF"

definition trim :: "jsstring \<Rightarrow> jsstring" where
  "trim s = rev (dropWhile isSpace (rev (dropWhile isSpace s)))"

text \<open>Truthiness of an optional string: \<open>undefined\<close> and \<open>''\<close> are falsy.\<close>

definition truthy :: "jsstring option \<Rightarrow> bool" where
  "truthy v = (case v of None \<Rightarrow> False | Some s \<Rightarrow> s \<noteq> [])"

text \<open>\<open>Array.prototype.join\<close>.\<close>

fun joinWith :: "'a list \<Rightarrow> 'a list list \<Rightarrow> 'a list" where
  "joinWith sep [] = []"
| "joinWith sep [x] = x"
| "joinWith sep (x # y # ys) = x @ sep @ joinWith sep (y # ys)"

section \<open>Data model (src/types/contact.ts)\<close>

record ContactEmail =
  email_value :: jsstring
  email_type :: "jsstring option"
  email_primary :: "bool option"

record ContactPhone =
  phone_value :: jsstring
  originalValue :: "jsstring option"
  phone_type :: "jsstring option"
  phone_primary :: "bool option"

text \<open>
  \<open>mergeUnion\<close> compares addresses by \<open>JSON.stringify\<close>, whose text lists the
  properties in the order in which the object got them; \<open>addr_props\<close> is that order
  (the names of the object's own properties).
\<close>

record ContactAddress =
  street :: "jsstring option"
  city :: "jsstring option"
  state :: "jsstring option"
  postalCode :: "jsstring option"
  country :: "jsstring option"
  addr_type :: "jsstring option"
  addr_props :: "jsstring list"

record ContactOrganization =
  org_name :: "jsstring option"
  department :: "jsstring option"
  title :: "jsstring option"

record ContactName =
  namePrefix :: "jsstring option"
  givenName :: "jsstring option"
  middleName :: "jsstring option"
  familyName :: "jsstring option"
  nameSuffix :: "jsstring option"

record ContactUrl =
  url_value :: jsstring
  url_type :: "jsstring option"

text \<open>
  \<open>providerIds\<close> is a \<open>Record<string, string>\<close>: an association list in insertion
  order whose keys are pairwise distinct.
\<close>

record ContactMetadata =
  created :: jsstring
  modified :: jsstring
  source :: "jsstring option"
  providerIds :: "(jsstring \<times> jsstring) list"
  archived :: bool
  etag :: "jsstring option"

record Contact =
  cid :: jsstring
  fullName :: jsstring
  name :: ContactName
  emails :: "ContactEmail list"
  phones :: "ContactPhone list"
  addresses :: "ContactAddress list"
  organization :: "ContactOrganization option"
  birthday :: "jsstring option"
  anniversary :: "jsstring option"
  urls :: "ContactUrl list"
  "notes" :: "jsstring option"
  categories :: "jsstring list"
  photo :: "jsstring option"
  metadata :: ContactMetadata

datatype error =
  Error jsstring
| ContactNotFoundError jsstring
| StoreError jsstring
| FsError jsstring

section \<open>Merge resolver (src/contacts/merge.ts)\<close>

datatype MergeStrategy = KeepNewest | KeepOldest | UnionStrategy

record MergeResult =
  mergedContact :: Contact
  sourceContactIds :: "jsstring list"
  fieldsFromEach :: "(jsstring \<times> jsstring) list"

text \<open>
  \<open>Array.prototype.sort\<close> with a comparator is stable: an element is placed before
  the first element it does not compare greater than.
\<close>

fun insertSorted :: "('a \<Rightarrow> 'a \<Rightarrow> int) \<Rightarrow> 'a \<Rightarrow> 'a list \<Rightarrow> 'a list" where
  "insertSorted cmp x [] = [x]"
| "insertSorted cmp x (y # ys) =
     (if cmp x y \<le> 0 then x # y # ys else y # insertSorted cmp x ys)"

definition jsSort :: "('a \<Rightarrow> 'a \<Rightarrow> int) \<Rightarrow> 'a list \<Rightarrow> 'a list" where
  "jsSort cmp xs = foldr (insertSorted cmp) xs []"

text \<open>
  \<open>new Date(s).getTime()\<close> is a parameter \<open>getTime\<close>; \<open>None\<close> stands for \<open>NaN\<close>
  (an invalid date).  A comparator result of \<open>NaN\<close> counts as \<open>0\<close>; the order
  \<open>Array.prototype.sort\<close> then produces is left to the engine, so what is proved about
  \<open>keep-newest\<close> and \<open>keep-oldest\<close> assumes valid dates.
\<close>

definition timeDiff :: "(jsstring \<Rightarrow> int option) \<Rightarrow> jsstring \<Rightarrow> jsstring \<Rightarrow> int" where
  "timeDiff getTime x y =
     (case (getTime x, getTime y) of (Some tx, Some ty) \<Rightarrow> tx - ty | _ \<Rightarrow> 0)"

definition mergeKeepNewest :: "(jsstring \<Rightarrow> int option) \<Rightarrow> Contact list \<Rightarrow> Contact" where
  "mergeKeepNewest getTime contacts =
     hd (jsSort (\<lambda>a b. timeDiff getTime (modified (metadata b)) (modified (metadata a))) contacts)"

definition mergeKeepOldest :: "(jsstring \<Rightarrow> int option) \<Rightarrow> Contact list \<Rightarrow> Contact" where
  "mergeKeepOldest getTime contacts =
     hd (jsSort (\<lambda>a b. timeDiff getTime (modified (metadata a)) (modified (metadata b))) contacts)"

text \<open>
  The \<open>Set\<close>-guarded append loops of \<open>mergeUnion\<close>: the set always holds the keys of
  the accumulated list.
\<close>

fun unionBy :: "('a \<Rightarrow> 'k) \<Rightarrow> 'a list \<Rightarrow> 'a list \<Rightarrow> 'a list" where
  "unionBy key acc [] = acc"
| "unionBy key acc (x # xs) =
     (if key x \<in> set (map key acc) then unionBy key acc xs
      else unionBy key (acc @ [x]) xs)"

definition noteSeparator :: jsstring where
  "noteSeparator = js [CHR 0x0A, CHR ''-'', CHR ''-'', CHR ''-'', CHR 0x0A]"

definition combineNotes :: "jsstring option \<Rightarrow> jsstring option \<Rightarrow> jsstring option" where
  "combineNotes primaryNotes otherNotes =
     (if truthy otherNotes \<and> otherNotes \<noteq> primaryNotes
      then Some (joinWith noteSeparator
                   (map the (filter truthy [primaryNotes, otherNotes])))
      else primaryNotes)"

definition dateLess :: "(jsstring \<Rightarrow> int option) \<Rightarrow> jsstring \<Rightarrow> jsstring \<Rightarrow> bool" where
  "dateLess getTime x y =
     (case (getTime x, getTime y) of (Some tx, Some ty) \<Rightarrow> tx < ty | _ \<Rightarrow> False)"

definition orgNameOf :: "ContactOrganization option \<Rightarrow> jsstring option" where
  "orgNameOf org = (case org of None \<Rightarrow> None | Some g \<Rightarrow> org_name g)"

text \<open>One iteration of the loop of \<open>mergeUnion\<close>.\<close>

text \<open>
  The key \<open>JSON.stringify(addr)\<close> of an address, as the list of its properties that
  have a value, in property order (the text is an injective rendering of that list).
\<close>

definition addressField :: "ContactAddress \<Rightarrow> jsstring \<Rightarrow> jsstring option" where
  "addressField a k =
     (if k = js ''street'' then street a
      else if k = js ''city'' then city a
      else if k = js ''state'' then state a
      else if k = js ''postalCode'' then postalCode a
      else if k = js ''country'' then country a
      else if k = js ''type'' then addr_type a
      else None)"

definition addressKey :: "ContactAddress \<Rightarrow> (jsstring \<times> jsstring) list" where
  "addressKey a =
     concat (map (\<lambda>k. case addressField a k of None \<Rightarrow> [] | Some v \<Rightarrow> [(k, v)]) (addr_props a))"

definition mergeUnionStep ::
  "Platform \<Rightarrow> (jsstring \<Rightarrow> int option) \<Rightarrow> Contact \<Rightarrow> Contact \<Rightarrow> Contact" where
  "mergeUnionStep P getTime primary other =
     (let p1 = (if length (fullName other) > length (fullName primary)
                then primary\<lparr>fullName := fullName other, name := name other\<rparr>
                else primary);
          p2 = p1\<lparr>emails := unionBy (\<lambda>e. toLowerCase P (email_value e)) (emails p1) (emails other)\<rparr>;
          p3 = p2\<lparr>phones := unionBy phone_value (phones p2) (phones other)\<rparr>;
          p4 = p3\<lparr>addresses := unionBy addressKey (addresses p3) (addresses other)\<rparr>;
          p5 = (if \<not> truthy (orgNameOf (organization p4)) \<and> truthy (orgNameOf (organization other))
                then p4\<lparr>organization := organization other\<rparr> else p4);
          p6 = (if \<not> truthy (birthday p5) \<and> truthy (birthday other)
                then p5\<lparr>birthday := birthday other\<rparr> else p5);
          p7 = p6\<lparr>urls := unionBy url_value (urls p6) (urls other)\<rparr>;
          p8 = p7\<lparr>notes := combineNotes (notes p7) (notes other)\<rparr>;
          p9 = p8\<lparr>categories := unionBy (\<lambda>c. c) (categories p8) (categories other)\<rparr>;
          p10 = (if \<not> truthy (photo p9) \<and> truthy (photo other)
                 then p9\<lparr>photo := photo other\<rparr> else p9)
      in if dateLess getTime (created (metadata other)) (created (metadata p10))
         then p10\<lparr>metadata := (metadata p10)\<lparr>created := created (metadata other)\<rparr>\<rparr>
         else p10)"

definition mergeUnion :: "Platform \<Rightarrow> (jsstring \<Rightarrow> int option) \<Rightarrow> Contact list \<Rightarrow> Contact" where
  "mergeUnion P getTime contacts = foldl (mergeUnionStep P getTime) (hd contacts) (tl contacts)"

definition applyFieldOverride :: "Contact \<Rightarrow> Contact \<Rightarrow> jsstring \<Rightarrow> Contact" where
  "applyFieldOverride target src field =
     (if field = js ''fullName'' then target\<lparr>fullName := fullName src, name := name src\<rparr>
      else if field = js ''emails'' then target\<lparr>emails := emails src\<rparr>
      else if field = js ''phones'' then target\<lparr>phones := phones src\<rparr>
      else if field = js ''addresses'' then target\<lparr>addresses := addresses src\<rparr>
      else if field = js ''organization'' then target\<lparr>organization := organization src\<rparr>
      else if field = js ''birthday'' then target\<lparr>birthday := birthday src\<rparr>
      else if field = js ''notes'' then target\<lparr>notes := notes src\<rparr>
      else if field = js ''categories'' then target\<lparr>categories := categories src\<rparr>
      else if field = js ''photo'' then target\<lparr>photo := photo src\<rparr>
      else target)"

text \<open>
  Property access on a plain object.  \<open>obj[k] = v\<close> replaces the value of an own
  property or appends a new one; for \<open>k = '__proto__'\<close> and no own property of that
  name it reaches the setter of \<open>Object.prototype\<close>, which ignores a string.  Reading
  \<open>obj[k]\<close> where \<open>obj\<close> has no own property \<open>k\<close> finds the members of
  \<open>Object.prototype\<close>, which are truthy.
\<close>

definition objectPrototypeKeys :: "jsstring list" where
  "objectPrototypeKeys =
     [js ''constructor'', js ''__defineGetter__'', js ''__defineSetter__'',
      js ''hasOwnProperty'', js ''__lookupGetter__'', js ''__lookupSetter__'',
      js ''isPrototypeOf'', js ''propertyIsEnumerable'', js ''toString'', js ''valueOf'',
      js ''__proto__'', js ''toLocaleString'']"

definition hasTruthyProp :: "(jsstring \<times> jsstring) list \<Rightarrow> jsstring \<Rightarrow> bool" where
  "hasTruthyProp obj k =
     (case map_of obj k of Some v \<Rightarrow> v \<noteq> [] | None \<Rightarrow> k \<in> set objectPrototypeKeys)"

fun setProp :: "'k \<Rightarrow> 'v \<Rightarrow> ('k \<times> 'v) list \<Rightarrow> ('k \<times> 'v) list" where
  "setProp k v [] = [(k, v)]"
| "setProp k v ((k', v') # kvs) =
     (if k' = k then (k, v) # kvs else (k', v') # setProp k v kvs)"

definition assignProp ::
  "jsstring \<Rightarrow> jsstring \<Rightarrow> (jsstring \<times> jsstring) list \<Rightarrow> (jsstring \<times> jsstring) list" where
  "assignProp k v obj =
     (if k = js ''__proto__'' \<and> map_of obj k = None then obj else setProp k v obj)"

text \<open>The override loop: the merged record and \<open>fieldsFromEach\<close> are threaded through.\<close>

fun applyOverrides ::
  "Contact list \<Rightarrow> (jsstring \<times> jsstring) list \<Rightarrow> Contact \<times> (jsstring \<times> jsstring) list
     \<Rightarrow> Contact \<times> (jsstring \<times> jsstring) list" where
  "applyOverrides contacts [] acc = acc"
| "applyOverrides contacts ((field, contactId) # rest) (merged, ffe) =
     (case find (\<lambda>c. cid c = contactId) contacts of
        None \<Rightarrow> applyOverrides contacts rest (merged, ffe)
      | Some src \<Rightarrow>
          applyOverrides contacts rest
            (applyFieldOverride merged src field, assignProp field contactId ffe))"

text \<open>
  The provider-id loop: an entry is written only where \<open>merged.metadata.providerIds[provider]\<close>
  is falsy.
\<close>

fun mergeProviderEntries ::
  "(jsstring \<times> jsstring) list \<Rightarrow> (jsstring \<times> jsstring) list \<Rightarrow> (jsstring \<times> jsstring) list" where
  "mergeProviderEntries acc [] = acc"
| "mergeProviderEntries acc ((provider, remoteId) # rest) =
     (if hasTruthyProp acc provider
      then mergeProviderEntries acc rest
      else mergeProviderEntries (assignProp provider remoteId acc) rest)"

definition mergeProviderIds ::
  "(jsstring \<times> jsstring) list \<Rightarrow> Contact list \<Rightarrow> (jsstring \<times> jsstring) list" where
  "mergeProviderIds acc contacts =
     foldl (\<lambda>m c. mergeProviderEntries m (providerIds (metadata c))) acc contacts"

definition strategyBase ::
  "Platform \<Rightarrow> (jsstring \<Rightarrow> int option) \<Rightarrow> MergeStrategy \<Rightarrow> Contact list \<Rightarrow> Contact" where
  "strategyBase P getTime strategy contacts =
     (case strategy of
        KeepNewest \<Rightarrow> mergeKeepNewest getTime contacts
      | KeepOldest \<Rightarrow> mergeKeepOldest getTime contacts
      | UnionStrategy \<Rightarrow> mergeUnion P getTime contacts)"

text \<open>\<open>now\<close> is the value of \<open>new Date().toISOString()\<close> at the call.\<close>

definition mergeContacts ::
  "Platform \<Rightarrow> (jsstring \<Rightarrow> int option) \<Rightarrow> jsstring \<Rightarrow> Contact list \<Rightarrow> MergeStrategy
     \<Rightarrow> (jsstring \<times> jsstring) list option \<Rightarrow> error + MergeResult" where
  "mergeContacts P getTime now contacts strategy fieldOverrides =
     (if length contacts < 2 then Inl (Error (js ''Need at least 2 contacts to merge''))
      else
        let primary = hd contacts;
            merged0 = strategyBase P getTime strategy contacts;
            (merged1, ffe) =
              (case fieldOverrides of
                 None \<Rightarrow> (merged0, [])
               | Some ovs \<Rightarrow> applyOverrides contacts ovs (merged0, []));
            merged2 = merged1\<lparr>cid := cid primary\<rparr>;
            merged3 = merged2\<lparr>metadata := (metadata merged2)\<lparr>modified := now, archived := False\<rparr>\<rparr>;
            merged4 = merged3\<lparr>metadata := (metadata merged3)
                        \<lparr>providerIds := mergeProviderIds (providerIds (metadata merged3)) contacts\<rparr>\<rparr>
        in Inr \<lparr>mergedContact = merged4,
                sourceContactIds = map cid contacts,
                fieldsFromEach = ffe\<rparr>)"

subsection \<open>Example records for the merge resolver\<close>

definition bareContact :: "jsstring \<Rightarrow> jsstring \<Rightarrow> Contact" where
  "bareContact i n =
     \<lparr>cid = i, fullName = n,
      name = \<lparr>namePrefix = None, givenName = None, middleName = None,
               familyName = None, nameSuffix = None\<rparr>,
      emails = [], phones = [], addresses = [], organization = None, birthday = None,
      anniversary = None, urls = [], notes = None, categories = [], photo = None,
      metadata = \<lparr>created = [], modified = [], source = None, providerIds = [],
                  archived = False, etag = None\<rparr>\<rparr>"

definition withProvider :: "Contact \<Rightarrow> jsstring \<Rightarrow> (jsstring \<times> jsstring) list \<Rightarrow> Contact" where
  "withProvider c m ps =
     c\<lparr>metadata := (metadata c)\<lparr>created := m, modified := m, providerIds := ps\<rparr>\<rparr>"

text \<open>The values of \<open>new Date(s).getTime()\<close> on the two timestamps of the examples.\<close>

definition exampleGetTime :: "jsstring \<Rightarrow> int option" where
  "exampleGetTime s =
     (if s = js ''2020-01-01T00:00:00.000Z'' then Some 1577836800000
      else if s = js ''2024-06-01T00:00:00.000Z'' then Some 1717200000000
      else None)"

definition cOld :: Contact where
  "cOld = withProvider (bareContact (js ''id-a'') (js ''Old Jane''))
            (js ''2020-01-01T00:00:00.000Z'') [(js ''google'', js ''g-old'')]"

definition cNew :: Contact where
  "cNew = withProvider (bareContact (js ''id-b'') (js ''New Jane''))
            (js ''2024-06-01T00:00:00.000Z'') [(js ''google'', js ''g-new'')]"

definition withNotes :: "Contact \<Rightarrow> jsstring \<Rightarrow> Contact" where
  "withNotes c n = c\<lparr>notes := Some n\<rparr>"

text \<open>
  The reading of "the first record in the input list that has an entry for that
  system", used to state the first-write-wins property of the specification.
\<close>

definition spec_firstListedProviderId :: "Contact list \<Rightarrow> jsstring \<Rightarrow> jsstring option" where
  "spec_firstListedProviderId contacts k =
     (case find (\<lambda>c. map_of (providerIds (metadata c)) k \<noteq> None) contacts of
        None \<Rightarrow> None
      | Some c \<Rightarrow> map_of (providerIds (metadata c)) k)"

section \<open>Normalisation (src/contacts/normalize.ts)\<close>

text \<open>
  \<open>parsePhone\<close> stands for libphonenumber's \<open>parsePhoneNumberFromString(raw, 'US')\<close>
  followed by the validity test and \<open>format('E.164')\<close>: \<open>Some\<close> of the formatted
  number when the parse is valid or possible, \<open>None\<close> otherwise.
\<close>

definition isFormattingChar :: "jschar \<Rightarrow> bool" where
  "isFormattingChar c \<longleftrightarrow> isSpace c \<or> c = 0x2D \<or> c = 0x28 \<or> c = 0x29 \<or> c = 0x2E"

definition normalizePhone :: "(jsstring \<Rightarrow> jsstring option) \<Rightarrow> jsstring \<Rightarrow> jsstring" where
  "normalizePhone parsePhone raw =
     (case parsePhone raw of
        Some e164 \<Rightarrow> e164
      | None \<Rightarrow>
          (let stripped = filter (\<lambda>c. \<not> isFormattingChar c) raw
           in if stripped \<noteq> [] then stripped else raw))"

definition normalizeEmail :: "Platform \<Rightarrow> jsstring \<Rightarrow> jsstring" where
  "normalizeEmail P email = toLowerCase P (trim email)"

section \<open>Duplicate detection (src/contacts/dedup.ts)\<close>

datatype MatchType = Exact | Fuzzy | Normalized

record MatchedField =
  field :: jsstring
  valueA :: jsstring
  valueB :: jsstring
  similarity :: rat
  matchType :: MatchType

record ContactSummary =
  summary_id :: jsstring
  summary_fullName :: jsstring
  primaryEmail :: "jsstring option"
  primaryPhone :: "jsstring option"
  summary_organization :: "jsstring option"
  summary_archived :: bool

record DuplicateCandidate =
  contactA :: ContactSummary
  contactB :: ContactSummary
  confidence :: rat
  matchedFields :: "MatchedField list"

record CompareResult =
  cmp_confidence :: rat
  cmp_matchedFields :: "MatchedField list"

text \<open>
  \<open>threshold\<close> and \<open>limit\<close> are JavaScript numbers; the finite ones are modelled,
  as rationals.
\<close>

record DedupOptions =
  threshold :: "rat option"
  limit :: "rat option"

definition toSummary :: "Contact \<Rightarrow> ContactSummary" where
  "toSummary contact =
     \<lparr>summary_id = cid contact,
      summary_fullName = fullName contact,
      primaryEmail =
        (case find (\<lambda>e. email_primary e = Some True) (emails contact) of
           Some e \<Rightarrow> Some (email_value e)
         | None \<Rightarrow> (case emails contact of [] \<Rightarrow> None | e # _ \<Rightarrow> Some (email_value e))),
      primaryPhone =
        (case find (\<lambda>p. phone_primary p = Some True) (phones contact) of
           Some p \<Rightarrow> Some (phone_value p)
         | None \<Rightarrow> (case phones contact of [] \<Rightarrow> None | p # _ \<Rightarrow> Some (phone_value p))),
      summary_organization = orgNameOf (organization contact),
      summary_archived = archived (metadata contact)\<rparr>"

text \<open>
  \<open>levenshtein\<close>: the table \<open>dp\<close> is filled row by row.  \<open>levRow\<close> computes the
  cells \<open>dp[i][1..n]\<close> from the previous row (passed from column \<open>j - 1\<close> on) and
  the cell to the left; \<open>levLoop\<close> is the loop over \<open>i\<close>.
\<close>

fun levRow :: "'a \<Rightarrow> 'a list \<Rightarrow> nat list \<Rightarrow> nat \<Rightarrow> nat list" where
  "levRow ai (bj # bs) (diag # up # rest) left =
     (let cell = (if ai = bj then diag else 1 + min up (min left diag))
      in cell # levRow ai bs (up # rest) cell)"
| "levRow ai bs prev left = []"

fun levLoop :: "'a list \<Rightarrow> 'a list \<Rightarrow> nat \<Rightarrow> nat list \<Rightarrow> nat list" where
  "levLoop [] b i prev = prev"
| "levLoop (ai # as) b i prev = levLoop as b (Suc i) (Suc i # levRow ai b prev (Suc i))"

definition levenshtein :: "'a list \<Rightarrow> 'a list \<Rightarrow> nat" where
  "levenshtein a b = last (levLoop a b 0 [0..<Suc (length b)])"

definition optStr :: "jsstring option \<Rightarrow> jsstring" where
  "optStr v = (case v of None \<Rightarrow> [] | Some s \<Rightarrow> s)"

definition computeNameSimilarity :: "Platform \<Rightarrow> Contact \<Rightarrow> Contact \<Rightarrow> rat" where
  "computeNameSimilarity P a b =
     (let nameA = trim (toLowerCase P (fullName a));
          nameB = trim (toLowerCase P (fullName b))
      in if nameA = nameB then 1
         else
           let givenA = toLowerCase P (optStr (givenName (name a)));
               familyA = toLowerCase P (optStr (familyName (name a)));
               givenB = toLowerCase P (optStr (givenName (name b)));
               familyB = toLowerCase P (optStr (familyName (name b)));
               allParts = (givenA \<noteq> [] \<and> familyA \<noteq> [] \<and> givenB \<noteq> [] \<and> familyB \<noteq> [])
           in if allParts \<and> givenA = givenB \<and> familyA = familyB then 1
              else if allParts \<and> givenA = familyB \<and> familyA = givenB then 9 / 10
              else if allParts \<and> familyA = familyB \<and> hd givenA = hd givenB \<and>
                      (length givenA = 1 \<or> length givenB = 1) then 3 / 4
              else
                let levDist = levenshtein nameA nameB;
                    maxLen = max (length nameA) (length nameB)
                in if maxLen = 0 then 1
                   else max 0 (1 - of_nat levDist / of_nat maxLen))"

definition emailMatch :: "Platform \<Rightarrow> Contact \<Rightarrow> Contact \<Rightarrow> jsstring option" where
  "emailMatch P a b =
     find (\<lambda>e. e \<in> set (map (\<lambda>x. normalizeEmail P (email_value x)) (emails b)))
          (map (\<lambda>x. normalizeEmail P (email_value x)) (emails a))"

definition phoneMatch :: "(jsstring \<Rightarrow> jsstring option) \<Rightarrow> Contact \<Rightarrow> Contact \<Rightarrow> jsstring option" where
  "phoneMatch parsePhone a b =
     find (\<lambda>p. p \<in> set (map (\<lambda>x. normalizePhone parsePhone (phone_value x)) (phones b)))
          (map (\<lambda>x. normalizePhone parsePhone (phone_value x)) (phones a))"

definition orgMatch :: "Platform \<Rightarrow> Contact \<Rightarrow> Contact \<Rightarrow> bool" where
  "orgMatch P a b \<longleftrightarrow>
     truthy (orgNameOf (organization a)) \<and> truthy (orgNameOf (organization b)) \<and>
     toLowerCase P (optStr (orgNameOf (organization a))) =
       toLowerCase P (optStr (orgNameOf (organization b)))"

text \<open>
  \<open>compareContacts\<close>.  Scores are modelled as rationals; every score the function
  can produce is a multiple of 0.05, and \<open>Math.round(score * 100) / 100\<close> is
  \<open>round\<close> on the exact value.
\<close>

definition compareContacts ::
  "Platform \<Rightarrow> (jsstring \<Rightarrow> jsstring option) \<Rightarrow> Contact \<Rightarrow> Contact \<Rightarrow> CompareResult" where
  "compareContacts P parsePhone a b =
     (let (score1, mf1) =
            (case emailMatch P a b of
               Some email \<Rightarrow>
                 (max 0 (95 / 100),
                  [\<lparr>field = js ''email'', valueA = email, valueB = email,
                    similarity = 1, matchType = Exact\<rparr>])
             | None \<Rightarrow> (0 :: rat, []));
          (score2, mf2) =
            (case phoneMatch parsePhone a b of
               Some phone \<Rightarrow>
                 (max score1 (90 / 100),
                  mf1 @ [\<lparr>field = js ''phone'', valueA = phone, valueB = phone,
                          similarity = 1, matchType = Normalized\<rparr>])
             | None \<Rightarrow> (score1, mf1));
          nameSim = computeNameSimilarity P a b;
          (score3, mf3) =
            (if nameSim \<ge> 85 / 100 then
               (max score2 (70 / 100),
                mf2 @ [\<lparr>field = js ''name'', valueA = fullName a, valueB = fullName b,
                        similarity = nameSim,
                        matchType = (if nameSim = 1 then Exact else Fuzzy)\<rparr>])
             else if nameSim \<ge> 65 / 100 then
               (max score2 (50 / 100),
                mf2 @ [\<lparr>field = js ''name'', valueA = fullName a, valueB = fullName b,
                        similarity = nameSim, matchType = Fuzzy\<rparr>])
             else (score2, mf2));
          (score4, mf4) =
            (if orgMatch P a b \<and> score3 > 0 then
               (min 1 (score3 + 15 / 100),
                mf3 @ [\<lparr>field = js ''organization'',
                        valueA = optStr (orgNameOf (organization a)),
                        valueB = optStr (orgNameOf (organization b)),
                        similarity = 1, matchType = Exact\<rparr>])
             else (score3, mf3))
      in \<lparr>cmp_confidence = of_int (round (score4 * 100)) / 100, cmp_matchedFields = mf4\<rparr>)"

text \<open>\<open>String.prototype.split\<close> with a one-character separator.\<close>

fun splitOn :: "'a \<Rightarrow> 'a list \<Rightarrow> 'a list list" where
  "splitOn sep [] = [[]]"
| "splitOn sep (c # cs) =
     (if c = sep then [] # splitOn sep cs
      else (case splitOn sep cs of [] \<Rightarrow> [[c]] | p # ps \<Rightarrow> (c # p) # ps))"

definition firstLetter :: "Platform \<Rightarrow> jsstring \<Rightarrow> jsstring" where
  "firstLetter P s = (case s of [] \<Rightarrow> [] | c # _ \<Rightarrow> toLowerCase P [c])"

definition isDigit :: "jschar \<Rightarrow> bool" where
  "isDigit c \<longleftrightarrow> 48 \<le> c \<and> c \<le> 57"

text \<open>
  The keys of one contact, in the insertion order of the \<open>Set\<close>: a repeated key
  keeps its first position.
\<close>

definition dedupFirst :: "'a list \<Rightarrow> 'a list" where
  "dedupFirst xs = rev (remdups (rev xs))"

definition blockKeys :: "Platform \<Rightarrow> Contact \<Rightarrow> jsstring list" where
  "blockKeys P contact =
     (let g = firstLetter P (case givenName (name contact) of
                             Some s \<Rightarrow> s
                           | None \<Rightarrow> hd (splitOn 0x20 (fullName contact)));
          f = firstLetter P (case familyName (name contact) of
                             Some s \<Rightarrow> s
                           | None \<Rightarrow> last (splitOn 0x20 (fullName contact)));
          nameKeys = (if g = [] \<and> f = [] then [] else [js ''name:'' @ g @ f]);
          domainKeys =
            concat (map (\<lambda>e. (case splitOn 0x40 (email_value e) of
                                 _ # d # _ \<Rightarrow>
                                   (if toLowerCase P d \<noteq> [] then [js ''domain:'' @ toLowerCase P d] else [])
                               | _ \<Rightarrow> []))
                        (emails contact));
          phoneKeys =
            concat (map (\<lambda>p. (let digits = filter isDigit (phone_value p)
                               in if length digits \<ge> 7
                                  then [js ''phone:'' @ drop (length digits - 7) digits]
                                  else []))
                        (phones contact))
      in dedupFirst (nameKeys @ domainKeys @ phoneKeys))"

fun addToBlock :: "jsstring \<Rightarrow> Contact \<Rightarrow> (jsstring \<times> Contact list) list
     \<Rightarrow> (jsstring \<times> Contact list) list" where
  "addToBlock key c [] = [(key, [c])]"
| "addToBlock key c ((k, block) # rest) =
     (if k = key then (k, block @ [c]) # rest else (k, block) # addToBlock key c rest)"

definition buildBlocks :: "Platform \<Rightarrow> Contact list \<Rightarrow> (jsstring \<times> Contact list) list" where
  "buildBlocks P contacts =
     foldl (\<lambda>blocks contact. foldl (\<lambda>bl key. addToBlock key contact bl) blocks (blockKeys P contact))
           [] contacts"

text \<open>Comparison of strings by code units, as the default \<open>Array.prototype.sort\<close> uses.\<close>

fun strLess :: "jsstring \<Rightarrow> jsstring \<Rightarrow> bool" where
  "strLess [] [] = False"
| "strLess [] (y # ys) = True"
| "strLess (x # xs) [] = False"
| "strLess (x # xs) (y # ys) = (x < y \<or> (x = y \<and> strLess xs ys))"

definition pairKey :: "Contact \<Rightarrow> Contact \<Rightarrow> jsstring" where
  "pairKey a b =
     (if strLess (cid b) (cid a) then cid b @ js '':'' @ cid a
      else cid a @ js '':'' @ cid b)"

text \<open>
  The body of the innermost loop, on the state \<open>(seen, candidates)\<close>; \<open>pairsFrom\<close>
  is the loop over \<open>j\<close> for a fixed \<open>i\<close>, \<open>blockPairs\<close> the loop over \<open>i\<close>.
\<close>

definition visitPair ::
  "Platform \<Rightarrow> (jsstring \<Rightarrow> jsstring option) \<Rightarrow> rat \<Rightarrow> Contact \<Rightarrow> Contact
     \<Rightarrow> jsstring list \<times> DuplicateCandidate list \<Rightarrow> jsstring list \<times> DuplicateCandidate list" where
  "visitPair P parsePhone thr a b st =
     (case st of (seen, candidates) \<Rightarrow>
        if pairKey a b \<in> set seen then (seen, candidates)
        else
          let result = compareContacts P parsePhone a b
          in (pairKey a b # seen,
              if cmp_confidence result \<ge> thr
              then candidates @ [\<lparr>contactA = toSummary a, contactB = toSummary b,
                                  confidence = cmp_confidence result,
                                  matchedFields = cmp_matchedFields result\<rparr>]
              else candidates))"

fun blockPairs ::
  "Platform \<Rightarrow> (jsstring \<Rightarrow> jsstring option) \<Rightarrow> rat \<Rightarrow> Contact list
     \<Rightarrow> jsstring list \<times> DuplicateCandidate list \<Rightarrow> jsstring list \<times> DuplicateCandidate list" where
  "blockPairs P parsePhone thr [] st = st"
| "blockPairs P parsePhone thr (a # rest) st =
     blockPairs P parsePhone thr rest (foldl (\<lambda>s b. visitPair P parsePhone thr a b s) st rest)"

text \<open>The candidates pushed by the loops over the blocks, before sorting.\<close>

definition collectCandidates ::
  "Platform \<Rightarrow> (jsstring \<Rightarrow> jsstring option) \<Rightarrow> rat \<Rightarrow> Contact list \<Rightarrow> DuplicateCandidate list" where
  "collectCandidates P parsePhone thr contacts =
     snd (foldl (\<lambda>st block. blockPairs P parsePhone thr block st) ([], [])
            (map snd (buildBlocks P contacts)))"

text \<open>
  \<open>xs.slice(0, n)\<close> for a finite number \<open>n\<close>: \<open>n\<close> is truncated towards zero, and a
  negative \<open>n\<close> counts from the end.
\<close>

definition truncateNumber :: "rat \<Rightarrow> int" where
  "truncateNumber q = (if q < 0 then - \<lfloor>- q\<rfloor> else \<lfloor>q\<rfloor>)"

definition sliceFromStart :: "'a list \<Rightarrow> rat \<Rightarrow> 'a list" where
  "sliceFromStart xs n =
     (if truncateNumber n < 0 then take (length xs - nat (- truncateNumber n)) xs
      else take (nat (truncateNumber n)) xs)"

definition byConfidenceDescending :: "DuplicateCandidate \<Rightarrow> DuplicateCandidate \<Rightarrow> int" where
  "byConfidenceDescending x y =
     (if confidence y < confidence x then -1 else if confidence x < confidence y then 1 else 0)"

definition findDuplicates ::
  "Platform \<Rightarrow> (jsstring \<Rightarrow> jsstring option) \<Rightarrow> Contact list \<Rightarrow> DedupOptions
     \<Rightarrow> DuplicateCandidate list" where
  "findDuplicates P parsePhone contacts options =
     (let thr = (case threshold options of Some t \<Rightarrow> t | None \<Rightarrow> 6 / 10);
          lim = (case limit options of Some l \<Rightarrow> l | None \<Rightarrow> 50)
      in sliceFromStart
           (jsSort byConfidenceDescending (collectCandidates P parsePhone thr contacts)) lim)"

section \<open>Contact construction (src/contacts/model.ts)\<close>

text \<open>\<open>Partial<Contact> & { fullName: string }\<close>: an absent field is \<open>None\<close>.\<close>

record ContactFields =
  f_id :: "jsstring option"
  f_fullName :: jsstring
  f_name :: "ContactName option"
  f_emails :: "ContactEmail list option"
  f_phones :: "ContactPhone list option"
  f_addresses :: "ContactAddress list option"
  f_organization :: "ContactOrganization option"
  f_birthday :: "jsstring option"
  f_anniversary :: "jsstring option"
  f_urls :: "ContactUrl list option"
  f_notes :: "jsstring option"
  f_categories :: "jsstring list option"
  f_photo :: "jsstring option"
  f_metadata :: "ContactMetadata option"

definition emptyName :: ContactName where
  "emptyName = \<lparr>namePrefix = None, givenName = None, middleName = None,
                 familyName = None, nameSuffix = None\<rparr>"

definition hasNameFields :: "ContactName option \<Rightarrow> bool" where
  "hasNameFields n =
     (case n of
        None \<Rightarrow> False
      | Some nm \<Rightarrow> truthy (givenName nm) \<or> truthy (familyName nm) \<or> truthy (middleName nm) \<or>
                   truthy (namePrefix nm) \<or> truthy (nameSuffix nm))"

text \<open>\<open>split(/\s+/)\<close>: every maximal run of white space is one separator.\<close>

fun splitWs :: "jsstring \<Rightarrow> jsstring list" where
  "splitWs [] = [[]]"
| "splitWs (c # cs) =
     (if isSpace c then
        (case cs of
           [] \<Rightarrow> [[], []]
         | d # ds \<Rightarrow> if isSpace d then splitWs cs else [] # splitWs cs)
      else (case splitWs cs of [] \<Rightarrow> [[c]] | p # ps \<Rightarrow> (c # p) # ps))"

definition parseName :: "jsstring \<Rightarrow> ContactName" where
  "parseName full =
     (let trimmed = trim full
      in if trimmed = [] then emptyName
         else
           let parts = splitWs trimmed
           in if length parts = 1 then emptyName\<lparr>givenName := Some (hd parts)\<rparr>
              else if length parts = 2
              then emptyName\<lparr>givenName := Some (hd parts), familyName := Some (parts ! 1)\<rparr>
              else emptyName\<lparr>givenName := Some (hd parts),
                             middleName := Some (joinWith [0x20] (butlast (tl parts))),
                             familyName := Some (last parts)\<rparr>)"

text \<open>
  \<open>newId\<close> is the value \<open>generateId()\<close> would return, \<open>now\<close> the value of
  \<open>new Date().toISOString()\<close>.
\<close>

definition createContact :: "jsstring \<Rightarrow> jsstring \<Rightarrow> ContactFields \<Rightarrow> Contact" where
  "createContact newId now flds =
     \<lparr>cid = (case f_id flds of Some i \<Rightarrow> i | None \<Rightarrow> newId),
      fullName = f_fullName flds,
      name = (if hasNameFields (f_name flds) then the (f_name flds)
              else parseName (f_fullName flds)),
      emails = (case f_emails flds of Some v \<Rightarrow> v | None \<Rightarrow> []),
      phones = (case f_phones flds of Some v \<Rightarrow> v | None \<Rightarrow> []),
      addresses = (case f_addresses flds of Some v \<Rightarrow> v | None \<Rightarrow> []),
      organization = f_organization flds,
      birthday = f_birthday flds,
      anniversary = f_anniversary flds,
      urls = (case f_urls flds of Some v \<Rightarrow> v | None \<Rightarrow> []),
      notes = f_notes flds,
      categories = (case f_categories flds of Some v \<Rightarrow> v | None \<Rightarrow> []),
      photo = f_photo flds,
      metadata = (case f_metadata flds of
                    Some m \<Rightarrow> m
                  | None \<Rightarrow> \<lparr>created = now, modified = now, source = None, providerIds = [],
                             archived = False, etag = None\<rparr>)\<rparr>"

text \<open>\<open>normalizeContact\<close> (src/contacts/normalize.ts).\<close>

definition normalizePhoneEntry :: "(jsstring \<Rightarrow> jsstring option) \<Rightarrow> ContactPhone \<Rightarrow> ContactPhone" where
  "normalizePhoneEntry parsePhone phone =
     (let normalized = normalizePhone parsePhone (phone_value phone)
      in if normalized \<noteq> phone_value phone
         then phone\<lparr>originalValue := Some (phone_value phone), phone_value := normalized\<rparr>
         else phone)"

definition trimIfTruthy :: "jsstring option \<Rightarrow> jsstring option" where
  "trimIfTruthy v = (if truthy v then Some (trim (the v)) else v)"

definition normalizeContact ::
  "Platform \<Rightarrow> (jsstring \<Rightarrow> jsstring option) \<Rightarrow> Contact \<Rightarrow> Contact" where
  "normalizeContact P parsePhone contact =
     contact\<lparr>emails := map (\<lambda>e. e\<lparr>email_value := normalizeEmail P (email_value e)\<rparr>) (emails contact),
             phones := map (normalizePhoneEntry parsePhone) (phones contact),
             fullName := trim (fullName contact),
             name := (name contact)\<lparr>givenName := trimIfTruthy (givenName (name contact)),
                                    familyName := trimIfTruthy (familyName (name contact)),
                                    middleName := trimIfTruthy (middleName (name contact))\<rparr>\<rparr>"

section \<open>Record codec (src/contacts/vcard.ts)\<close>

subsection \<open>String helpers\<close>

text \<open>\<open>s.replace(/c/g, r)\<close> for a single code unit \<open>c\<close>.\<close>

definition replaceChar :: "'a \<Rightarrow> 'a list \<Rightarrow> 'a list \<Rightarrow> 'a list" where
  "replaceChar c r s = concat (map (\<lambda>x. if x = c then r else [x]) s)"

text \<open>\<open>s.replace(/pq/g, r)\<close> for a two-unit pattern: leftmost matches, not overlapping.\<close>

fun replacePair :: "'a \<Rightarrow> 'a \<Rightarrow> 'a list \<Rightarrow> 'a list \<Rightarrow> 'a list" where
  "replacePair p q r (x # y # rest) =
     (if x = p \<and> y = q then r @ replacePair p q r rest
      else x # replacePair p q r (y # rest))"
| "replacePair p q r s = s"

text \<open>\<open>s.split('pq')\<close> for a two-unit separator.\<close>

fun splitPair :: "'a \<Rightarrow> 'a \<Rightarrow> 'a list \<Rightarrow> 'a list list" where
  "splitPair p q (x # y # rest) =
     (if x = p \<and> y = q then [] # splitPair p q rest
      else (case splitPair p q (y # rest) of [] \<Rightarrow> [[x]] | l # ls \<Rightarrow> (x # l) # ls))"
| "splitPair p q s = [s]"

definition startsWith :: "'a list \<Rightarrow> 'a list \<Rightarrow> bool" where
  "startsWith s pre = (take (length pre) s = pre)"

abbreviation (input) BACKSLASH :: jschar where "BACKSLASH \<equiv> 0x5C"
abbreviation (input) SEMI :: jschar where "SEMI \<equiv> 0x3B"
abbreviation (input) COMMA :: jschar where "COMMA \<equiv> 0x2C"
abbreviation (input) COLON :: jschar where "COLON \<equiv> 0x3A"
abbreviation (input) LF :: jschar where "LF \<equiv> 0x0A"
abbreviation (input) CR :: jschar where "CR \<equiv> 0x0D"
abbreviation (input) SPACE :: jschar where "SPACE \<equiv> 0x20"
abbreviation (input) TAB :: jschar where "TAB \<equiv> 0x09"
abbreviation (input) LETTER_n :: jschar where "LETTER_n \<equiv> 0x6E"

definition escapeVCardValue :: "jsstring \<Rightarrow> jsstring" where
  "escapeVCardValue v =
     replaceChar LF [BACKSLASH, LETTER_n]
       (replaceChar COMMA [BACKSLASH, COMMA]
         (replaceChar SEMI [BACKSLASH, SEMI]
           (replaceChar BACKSLASH [BACKSLASH, BACKSLASH] v)))"

definition unescapeVCardValue :: "jsstring \<Rightarrow> jsstring" where
  "unescapeVCardValue v =
     replacePair BACKSLASH BACKSLASH [BACKSLASH]
       (replacePair BACKSLASH SEMI [SEMI]
         (replacePair BACKSLASH COMMA [COMMA]
           (replacePair BACKSLASH LETTER_n [LF] v)))"

subsection \<open>Line folding\<close>

text \<open>
  \<open>Buffer.byteLength(s, 'utf-8')\<close>: a surrogate pair takes four octets, an unpaired
  surrogate is written as U+FFFD and takes three.
\<close>

definition isHighSurrogate :: "jschar \<Rightarrow> bool" where
  "isHighSurrogate c \<longleftrightarrow> 0xD800 \<le> c \<and> c \<le> 0xDBFF"

definition isLowSurrogate :: "jschar \<Rightarrow> bool" where
  "isLowSurrogate c \<longleftrightarrow> 0xDC00 \<le> c \<and> c \<le> 0xDFFF"

fun byteLength :: "jsstring \<Rightarrow> nat" where
  "byteLength [] = 0"
| "byteLength (c # cs) =
     (if c < 0x80 then 1 + byteLength cs
      else if c < 0x800 then 2 + byteLength cs
      else if isHighSurrogate c then
        (case cs of
           [] \<Rightarrow> 3
         | d # ds \<Rightarrow> if isLowSurrogate d then 4 + byteLength ds else 3 + byteLength cs)
      else 3 + byteLength cs)"

text \<open>The inner loop of \<open>foldLines\<close>: \<open>cutPoint\<close> is lowered until the prefix fits.\<close>

fun findCut :: "nat \<Rightarrow> jsstring \<Rightarrow> nat \<Rightarrow> nat" where
  "findCut bound s 0 = 0"
| "findCut bound s (Suc n) =
     (if byteLength (take (Suc n) s) > bound then findCut bound s n else Suc n)"

definition cutPointOf :: "bool \<Rightarrow> jsstring \<Rightarrow> nat" where
  "cutPointOf first remaining =
     (if first then findCut 75 remaining 75 else findCut 74 remaining 74)"

lemma byteLength_take1: "byteLength (take (Suc 0) s) \<le> 3"
  by (cases s) auto

lemma findCut_pos: "3 \<le> bound \<Longrightarrow> 0 < n \<Longrightarrow> 0 < findCut bound s n"
proof (induction n)
  case 0
  then show ?case by simp
next
  case (Suc n)
  show ?case
  proof (cases n)
    case 0
    then show ?thesis using Suc.prems byteLength_take1[of s] by simp
  next
    case (Suc m)
    then show ?thesis using Suc.IH Suc.prems by simp
  qed
qed

lemma cutPointOf_pos: "0 < cutPointOf first remaining"
  by (simp add: cutPointOf_def findCut_pos)

text \<open>The outer loop of \<open>foldLines\<close>, returning the array \<open>result\<close>.\<close>

function foldPieces :: "bool \<Rightarrow> jsstring \<Rightarrow> jsstring list" where
  "foldPieces first remaining =
     (if byteLength remaining > 75
      then take (cutPointOf first remaining) remaining
             # foldPieces False (drop (cutPointOf first remaining) remaining)
      else if remaining \<noteq> [] then [remaining] else [])"
  by pat_completeness auto
termination
proof (relation "measure (\<lambda>(first, remaining). length remaining)")
  show "wf (measure (\<lambda>(first, remaining). length remaining))" by simp
next
  fix first :: bool and remaining :: jsstring
  assume "75 < byteLength remaining"
  then have "remaining \<noteq> []" by auto
  then show "((False, drop (cutPointOf first remaining) remaining), (first, remaining))
               \<in> measure (\<lambda>(first, remaining). length remaining)"
    using cutPointOf_pos[of first remaining] by simp
qed

declare foldPieces.simps [simp del]

definition foldLine :: "jsstring \<Rightarrow> jsstring" where
  "foldLine line =
     (if byteLength line \<le> 75 then line
      else joinWith [CR, LF, SPACE] (foldPieces True line))"

definition foldLines :: "jsstring \<Rightarrow> jsstring" where
  "foldLines text = joinWith [CR, LF] (map foldLine (splitPair CR LF text))"

definition isContinuation :: "jsstring \<Rightarrow> bool" where
  "isContinuation line = (case line of [] \<Rightarrow> False | c # _ \<Rightarrow> c = SPACE \<or> c = TAB)"

fun unfoldLoop :: "jsstring list \<Rightarrow> jsstring list \<Rightarrow> jsstring list" where
  "unfoldLoop result [] = result"
| "unfoldLoop result (line # rest) =
     (if isContinuation line \<and> result \<noteq> []
      then unfoldLoop (butlast result @ [last result @ tl line]) rest
      else unfoldLoop (result @ [line]) rest)"

definition unfoldLines :: "jsstring \<Rightarrow> jsstring list" where
  "unfoldLines text =
     filter (\<lambda>l. l \<noteq> [])
       (unfoldLoop [] (splitOn LF (replaceChar CR [LF] (replacePair CR LF [LF] text))))"

subsection \<open>Properties\<close>

record VCardProperty =
  prop_name :: jsstring
  prop_params :: "jsstring list"
  prop_value :: jsstring

definition parseLine :: "Platform \<Rightarrow> jsstring \<Rightarrow> VCardProperty option" where
  "parseLine P line =
     (if COLON \<notin> set line then None
      else
        let left = takeWhile (\<lambda>c. c \<noteq> COLON) line;
            val = tl (dropWhile (\<lambda>c. c \<noteq> COLON) line);
            parts = splitOn SEMI left;
            nm = toUpperCase P (hd parts)
        in if nm = js ''BEGIN'' \<or> nm = js ''END'' then None
           else Some \<lparr>prop_name = nm, prop_params = tl parts, prop_value = val\<rparr>)"

definition parseProperties :: "Platform \<Rightarrow> jsstring list \<Rightarrow> VCardProperty list" where
  "parseProperties P lines = List.map_filter (parseLine P) lines"

definition getFirstValue :: "Platform \<Rightarrow> VCardProperty list \<Rightarrow> jsstring \<Rightarrow> jsstring option" where
  "getFirstValue P props nm =
     map_option prop_value (find (\<lambda>e. prop_name e = toUpperCase P nm) props)"

definition getAll :: "Platform \<Rightarrow> VCardProperty list \<Rightarrow> jsstring \<Rightarrow> VCardProperty list" where
  "getAll P props nm = filter (\<lambda>e. prop_name e = toUpperCase P nm) props"

definition extractUid :: "jsstring \<Rightarrow> jsstring option" where
  "extractUid v =
     (if v = [] then None
      else if startsWith v (js ''urn:uuid:'') then Some (drop 9 v) else Some v)"

definition extractType :: "Platform \<Rightarrow> jsstring list \<Rightarrow> jsstring option" where
  "extractType P ps =
     (case find (\<lambda>p. startsWith (toUpperCase P p) (js ''TYPE='')) ps of
        None \<Rightarrow> None
      | Some p \<Rightarrow> Some (toLowerCase P (drop 5 p)))"

definition hasPref :: "Platform \<Rightarrow> jsstring list \<Rightarrow> bool" where
  "hasPref P ps = list_ex (\<lambda>p. startsWith (toUpperCase P p) (js ''PREF'')) ps"

text \<open>\<open>parts[i] || undefined\<close>.\<close>

definition partAt :: "jsstring list \<Rightarrow> nat \<Rightarrow> jsstring option" where
  "partAt parts i = (if i < length parts \<and> parts ! i \<noteq> [] then Some (parts ! i) else None)"

subsection \<open>Encoding\<close>

definition paramStr :: "jsstring list \<Rightarrow> jsstring" where
  "paramStr ps = (if ps \<noteq> [] then [SEMI] @ joinWith [SEMI] ps else [])"

definition typeParam :: "jsstring option \<Rightarrow> jsstring list" where
  "typeParam t = (if truthy t then [js ''TYPE='' @ the t] else [])"

definition prefParam :: "bool option \<Rightarrow> jsstring list" where
  "prefParam p = (if p = Some True then [js ''PREF=1''] else [])"

definition emailLine :: "ContactEmail \<Rightarrow> jsstring" where
  "emailLine email =
     js ''EMAIL'' @ paramStr (typeParam (email_type email) @ prefParam (email_primary email))
       @ [COLON] @ escapeVCardValue (email_value email)"

definition phoneLine :: "ContactPhone \<Rightarrow> jsstring" where
  "phoneLine phone =
     js ''TEL'' @ paramStr (typeParam (phone_type phone) @ prefParam (phone_primary phone))
       @ [COLON] @ escapeVCardValue (phone_value phone)"

definition addressLine :: "ContactAddress \<Rightarrow> jsstring" where
  "addressLine addr =
     js ''ADR'' @ paramStr (typeParam (addr_type addr)) @ [COLON] @ [SEMI, SEMI]
       @ escapeVCardValue (optStr (street addr)) @ [SEMI]
       @ escapeVCardValue (optStr (city addr)) @ [SEMI]
       @ escapeVCardValue (optStr (state addr)) @ [SEMI]
       @ escapeVCardValue (optStr (postalCode addr)) @ [SEMI]
       @ escapeVCardValue (optStr (country addr))"

definition urlLine :: "ContactUrl \<Rightarrow> jsstring" where
  "urlLine url =
     js ''URL'' @ paramStr (typeParam (url_type url)) @ [COLON] @ escapeVCardValue (url_value url)"

definition nameLine :: "ContactName \<Rightarrow> jsstring" where
  "nameLine n =
     js ''N:'' @ escapeVCardValue (optStr (familyName n)) @ [SEMI]
       @ escapeVCardValue (optStr (givenName n)) @ [SEMI]
       @ escapeVCardValue (optStr (middleName n)) @ [SEMI]
       @ escapeVCardValue (optStr (namePrefix n)) @ [SEMI]
       @ escapeVCardValue (optStr (nameSuffix n))"

definition orgLines :: "ContactOrganization option \<Rightarrow> jsstring list" where
  "orgLines org =
     (case org of
        None \<Rightarrow> []
      | Some g \<Rightarrow>
          (if truthy (org_name g)
           then [js ''ORG:'' @ escapeVCardValue (the (org_name g))
                   @ (if truthy (department g)
                      then [SEMI] @ escapeVCardValue (the (department g)) else [])]
           else [])
          @ (if truthy (title g) then [js ''TITLE:'' @ escapeVCardValue (the (title g))] else []))"

definition optLine :: "jsstring \<Rightarrow> jsstring option \<Rightarrow> jsstring list" where
  "optLine label v = (if truthy v then [label @ the v] else [])"

definition optEscLine :: "jsstring \<Rightarrow> jsstring option \<Rightarrow> jsstring list" where
  "optEscLine label v = (if truthy v then [label @ escapeVCardValue (the v)] else [])"

definition vcardLines :: "((jsstring \<times> jsstring) list \<Rightarrow> jsstring) \<Rightarrow> Contact \<Rightarrow> jsstring list" where
  "vcardLines jsonStringify contact =
     [js ''BEGIN:VCARD'', js ''VERSION:4.0'',
      js ''UID:urn:uuid:'' @ cid contact,
      js ''FN:'' @ escapeVCardValue (fullName contact),
      nameLine (name contact)]
     @ map emailLine (emails contact)
     @ map phoneLine (phones contact)
     @ map addressLine (addresses contact)
     @ orgLines (organization contact)
     @ optLine (js ''BDAY:'') (birthday contact)
     @ optLine (js ''ANNIVERSARY:'') (anniversary contact)
     @ map urlLine (urls contact)
     @ optEscLine (js ''NOTE:'') (notes contact)
     @ (if categories contact \<noteq> []
        then [js ''CATEGORIES:'' @ joinWith [COMMA] (map escapeVCardValue (categories contact))]
        else [])
     @ optLine (js ''PHOTO:'') (photo contact)
     @ [js ''REV:'' @ modified (metadata contact)]
     @ optEscLine (js ''X-CONTACTS-MCP-SOURCE:'') (source (metadata contact))
     @ (if providerIds (metadata contact) \<noteq> []
        then [js ''X-CONTACTS-MCP-PROVIDER-IDS:''
                @ escapeVCardValue (jsonStringify (providerIds (metadata contact)))]
        else [])
     @ [js ''X-CONTACTS-MCP-CREATED:'' @ created (metadata contact)]
     @ (if archived (metadata contact) then [js ''X-CONTACTS-MCP-ARCHIVED:true''] else [])
     @ [js ''END:VCARD'']"

text \<open>
  \<open>jsonStringify\<close> stands for \<open>JSON.stringify\<close> on the provider mapping.
\<close>

definition contactToVCard :: "((jsstring \<times> jsstring) list \<Rightarrow> jsstring) \<Rightarrow> Contact \<Rightarrow> jsstring" where
  "contactToVCard jsonStringify contact =
     foldLines (joinWith [CR, LF] (vcardLines jsonStringify contact))"

subsection \<open>Decoding\<close>

definition decodeEmail :: "Platform \<Rightarrow> VCardProperty \<Rightarrow> ContactEmail" where
  "decodeEmail P p =
     \<lparr>email_value = unescapeVCardValue (prop_value p),
      email_type = extractType P (prop_params p),
      email_primary = Some (hasPref P (prop_params p))\<rparr>"

definition decodePhone :: "Platform \<Rightarrow> VCardProperty \<Rightarrow> ContactPhone" where
  "decodePhone P p =
     \<lparr>phone_value = unescapeVCardValue (prop_value p),
      originalValue = None,
      phone_type = extractType P (prop_params p),
      phone_primary = Some (hasPref P (prop_params p))\<rparr>"

definition decodedAddressProps :: "jsstring list" where
  "decodedAddressProps =
     [js ''street'', js ''city'', js ''state'', js ''postalCode'', js ''country'', js ''type'']"

definition decodeAddress :: "Platform \<Rightarrow> VCardProperty \<Rightarrow> ContactAddress" where
  "decodeAddress P p =
     (let parts = map unescapeVCardValue (splitOn SEMI (prop_value p))
      in \<lparr>street = partAt parts 2, city = partAt parts 3, state = partAt parts 4,
           postalCode = partAt parts 5, country = partAt parts 6,
           addr_type = extractType P (prop_params p),
           addr_props = decodedAddressProps\<rparr>)"

definition decodeUrl :: "Platform \<Rightarrow> VCardProperty \<Rightarrow> ContactUrl" where
  "decodeUrl P p =
     \<lparr>url_value = unescapeVCardValue (prop_value p), url_type = extractType P (prop_params p)\<rparr>"

definition decodeOrganization :: "jsstring option \<Rightarrow> jsstring option \<Rightarrow> ContactOrganization option" where
  "decodeOrganization orgValue titleValue =
     (if truthy orgValue \<or> truthy titleValue
      then Some
        \<lparr>org_name = (if truthy orgValue
                      then Some (unescapeVCardValue (hd (splitOn SEMI (the orgValue))))
                      else None),
         department = (if truthy orgValue \<and> SEMI \<in> set (the orgValue)
                       then Some (unescapeVCardValue (splitOn SEMI (the orgValue) ! 1))
                       else None),
         title = (if truthy titleValue then Some (unescapeVCardValue (the titleValue)) else None)\<rparr>
      else None)"

text \<open>
  \<open>jsonParse\<close> stands for \<open>JSON.parse\<close> (\<open>None\<close> when it throws); \<open>newId\<close> and \<open>now\<close>
  are passed on to \<open>createContact\<close>.
\<close>

definition vcardToContact ::
  "Platform \<Rightarrow> (jsstring \<Rightarrow> (jsstring \<times> jsstring) list option) \<Rightarrow> jsstring \<Rightarrow> jsstring
     \<Rightarrow> jsstring \<Rightarrow> Contact" where
  "vcardToContact P jsonParse newId now vcard =
     (let props = parseProperties P (unfoldLines vcard);
          ident = (case extractUid (case getFirstValue P props (js ''UID'') of
                                      Some v \<Rightarrow> v | None \<Rightarrow> []) of
                     Some i \<Rightarrow> i | None \<Rightarrow> []);
          full = unescapeVCardValue
                   (case getFirstValue P props (js ''FN'') of Some v \<Rightarrow> v | None \<Rightarrow> js ''Unknown'');
          nValue = (case getFirstValue P props (js ''N'') of Some v \<Rightarrow> v | None \<Rightarrow> js '';;;;'');
          nParts = map unescapeVCardValue (splitOn SEMI nValue);
          nm = \<lparr>namePrefix = partAt nParts 3, givenName = partAt nParts 1,
                middleName = partAt nParts 2, familyName = partAt nParts 0,
                nameSuffix = partAt nParts 4\<rparr>;
          rev = getFirstValue P props (js ''REV'');
          catValue = getFirstValue P props (js ''CATEGORIES'');
          src = getFirstValue P props (js ''X-CONTACTS-MCP-SOURCE'');
          providerIdsRaw = getFirstValue P props (js ''X-CONTACTS-MCP-PROVIDER-IDS'');
          pids = (if truthy providerIdsRaw
                  then (case jsonParse (unescapeVCardValue (the providerIdsRaw)) of
                          Some m \<Rightarrow> m | None \<Rightarrow> [])
                  else []);
          cre = (case getFirstValue P props (js ''X-CONTACTS-MCP-CREATED'') of
                   Some v \<Rightarrow> v
                 | None \<Rightarrow> (case rev of Some r \<Rightarrow> r | None \<Rightarrow> now))
      in createContact newId now
           \<lparr>f_id = Some ident,
            f_fullName = full,
            f_name = Some nm,
            f_emails = Some (map (decodeEmail P) (getAll P props (js ''EMAIL''))),
            f_phones = Some (map (decodePhone P) (getAll P props (js ''TEL''))),
            f_addresses = Some (map (decodeAddress P) (getAll P props (js ''ADR''))),
            f_organization = decodeOrganization (getFirstValue P props (js ''ORG''))
                                                (getFirstValue P props (js ''TITLE'')),
            f_birthday = getFirstValue P props (js ''BDAY''),
            f_anniversary = getFirstValue P props (js ''ANNIVERSARY''),
            f_urls = Some (map (decodeUrl P) (getAll P props (js ''URL''))),
            f_notes = (if truthy (getFirstValue P props (js ''NOTE''))
                       then Some (unescapeVCardValue (the (getFirstValue P props (js ''NOTE''))))
                       else None),
            f_categories = Some (if truthy catValue
                                 then map unescapeVCardValue (splitOn COMMA (the catValue))
                                 else []),
            f_photo = getFirstValue P props (js ''PHOTO''),
            f_metadata = Some
              \<lparr>created = cre,
               modified = (case rev of Some r \<Rightarrow> r | None \<Rightarrow> now),
               source = (if truthy src then Some (unescapeVCardValue (the src)) else None),
               providerIds = pids,
               archived = (getFirstValue P props (js ''X-CONTACTS-MCP-ARCHIVED'') = Some (js ''true'')),
               etag = None\<rparr>\<rparr>)"

section \<open>Versioned record store (src/store/git-store.ts, src/store/git-ops.ts)\<close>

text \<open>
  The store is a directory tree with one file per record in \<open>contacts/\<close> and
  \<open>archive/\<close>, a git history with its tags, and a lock file.  A directory is the
  list of its files, keyed by the record id of the file name \<open><id>.vcf\<close>; \<open>None\<close> is a
  directory that does not exist.  Of the file system's failures only \<open>ENOENT\<close> is
  modelled.
\<close>

type_synonym Directory = "(jsstring \<times> jsstring) list"

record Commit =
  hash :: jsstring
  message :: jsstring

record Store =
  contactsDir :: "Directory option"
  archiveDir :: "Directory option"
  commits :: "Commit list"
  tags :: "jsstring list"
  lockMtime :: "int option"

text \<open>
  What the operations take from their environment: the clock (\<open>Date.now()\<close> and
  \<open>new Date().toISOString()\<close>), \<open>generateId()\<close>, the hash git gives to the next
  commit, the outcome of \<open>git revert\<close> (\<open>None\<close> when it fails), and the library
  functions used by the codec and the normaliser.
\<close>

record Env =
  platform :: Platform
  nowMs :: int
  nowIso :: jsstring
  newId :: jsstring
  nextHash :: "Store \<Rightarrow> jsstring"
  gitRevert :: "jsstring \<Rightarrow> Store \<Rightarrow> Store option"
  parsePhoneNumber :: "jsstring \<Rightarrow> jsstring option"
  jsonStringify :: "(jsstring \<times> jsstring) list \<Rightarrow> jsstring"
  jsonParse :: "jsstring \<Rightarrow> (jsstring \<times> jsstring) list option"

text \<open>
  Writing a string as UTF-8 and reading it back replaces every unpaired surrogate by
  U+FFFD.
\<close>

fun utf8RoundTrip :: "jsstring \<Rightarrow> jsstring" where
  "utf8RoundTrip [] = []"
| "utf8RoundTrip (c # cs) =
     (if isHighSurrogate c then
        (case cs of
           [] \<Rightarrow> [0xFFFD]
         | d # ds \<Rightarrow> if isLowSurrogate d then c # d # utf8RoundTrip ds
                     else 0xFFFD # utf8RoundTrip cs)
      else if isLowSurrogate c then 0xFFFD # utf8RoundTrip cs
      else c # utf8RoundTrip cs)"

subsection \<open>Files\<close>

definition readFile :: "Directory option \<Rightarrow> jsstring \<Rightarrow> jsstring option" where
  "readFile d i = (case d of None \<Rightarrow> None | Some files \<Rightarrow> map_of files i)"

definition writeFile :: "Directory option \<Rightarrow> jsstring \<Rightarrow> jsstring \<Rightarrow> error + Directory option" where
  "writeFile d i content =
     (case d of
        None \<Rightarrow> Inl (FsError (js ''ENOENT''))
      | Some files \<Rightarrow> Inr (Some (setProp i (utf8RoundTrip content) files)))"

definition removeEntry :: "jsstring \<Rightarrow> Directory \<Rightarrow> Directory" where
  "removeEntry i files = filter (\<lambda>e. fst e \<noteq> i) files"

subsection \<open>Git operations\<close>

definition gitCommit :: "Env \<Rightarrow> jsstring \<Rightarrow> Store \<Rightarrow> Store" where
  "gitCommit env msg s = s\<lparr>commits := \<lparr>hash = nextHash env s, message = msg\<rparr> # commits s\<rparr>"

text \<open>
  \<open>GitOps.init\<close>: the directories are created where missing; a directory tree without
  history gets the initial commit.
\<close>

definition init :: "Env \<Rightarrow> Store \<Rightarrow> Store" where
  "init env s =
     (let s1 = s\<lparr>contactsDir := Some (case contactsDir s of None \<Rightarrow> [] | Some files \<Rightarrow> files),
                archiveDir := Some (case archiveDir s of None \<Rightarrow> [] | Some files \<Rightarrow> files)\<rparr>
      in if commits s = [] then gitCommit env (js ''Initial commit'') s1 else s1)"

definition noStore :: Store where
  "noStore = \<lparr>contactsDir = None, archiveDir = None, commits = [], tags = [], lockMtime = None\<rparr>"

text \<open>
  \<open>git.log({ maxCount })\<close>, for an integer \<open>maxCount\<close>: \<open>0\<close> is falsy and sets no
  limit, and git reads a negative \<open>--max-count\<close> as no limit.
\<close>

definition gitLog :: "int \<Rightarrow> Store \<Rightarrow> Commit list" where
  "gitLog maxCount s = (if maxCount \<le> 0 then commits s else take (nat maxCount) (commits s))"

definition gitTag :: "jsstring \<Rightarrow> Store \<Rightarrow> error + Store" where
  "gitTag t s =
     (if t \<in> set (tags s) then Inl (Error (js ''fatal: tag already exists''))
      else Inr (s\<lparr>tags := tags s @ [t]\<rparr>))"

datatype Area = Contacts | Archive

text \<open>
  \<open>git rm\<close> fails on a path that is not there; it deletes the file, and the directory
  with it when no file is left.
\<close>

definition removeFrom :: "Directory option \<Rightarrow> jsstring \<Rightarrow> error + Directory option" where
  "removeFrom d i =
     (case readFile d i of
        None \<Rightarrow> Inl (Error (js ''fatal: pathspec did not match any files''))
      | Some f \<Rightarrow>
          (if removeEntry i (the d) = [] then Inr None else Inr (Some (removeEntry i (the d)))))"

definition gitRemove :: "Area \<Rightarrow> jsstring \<Rightarrow> Store \<Rightarrow> error + Store" where
  "gitRemove area i s =
     (case area of
        Contacts \<Rightarrow>
          (case removeFrom (contactsDir s) i of
             Inl e \<Rightarrow> Inl e
           | Inr d \<Rightarrow> Inr (s\<lparr>contactsDir := d\<rparr>))
      | Archive \<Rightarrow>
          (case removeFrom (archiveDir s) i of
             Inl e \<Rightarrow> Inl e
           | Inr d \<Rightarrow> Inr (s\<lparr>archiveDir := d\<rparr>)))"

text \<open>
  \<open>git.move(relativeContactPath(id), relativeArchivePath(id))\<close>: the target directory
  is created first, then the file is renamed.
\<close>

definition gitMoveToArchive :: "jsstring \<Rightarrow> Store \<Rightarrow> (error + unit) \<times> Store" where
  "gitMoveToArchive i s =
     (let s1 = s\<lparr>archiveDir := Some (case archiveDir s of None \<Rightarrow> [] | Some files \<Rightarrow> files)\<rparr>
      in case readFile (contactsDir s1) i of
           None \<Rightarrow> (Inl (FsError (js ''ENOENT'')), s1)
         | Some f \<Rightarrow>
             (Inr (), s1\<lparr>contactsDir := Some (removeEntry i (the (contactsDir s1))),
                         archiveDir := Some (setProp i f (the (archiveDir s1)))\<rparr>))"

subsection \<open>Locking\<close>

definition acquireLock :: "Env \<Rightarrow> Store \<Rightarrow> error + Store" where
  "acquireLock env s =
     (case lockMtime s of
        None \<Rightarrow> Inr (s\<lparr>lockMtime := Some (nowMs env)\<rparr>)
      | Some mtime \<Rightarrow>
          if nowMs env - mtime > 30000 then Inr (s\<lparr>lockMtime := Some (nowMs env)\<rparr>)
          else Inl (StoreError (js ''Store is locked by another operation'')))"

definition releaseLock :: "Store \<Rightarrow> Store" where
  "releaseLock s = s\<lparr>lockMtime := None\<rparr>"

text \<open>
  An operation returns its result or the error thrown, and the store as it is left.
\<close>

definition withLock :: "Env \<Rightarrow> (Store \<Rightarrow> (error + 'a) \<times> Store) \<Rightarrow> Store \<Rightarrow> (error + 'a) \<times> Store" where
  "withLock env fn s =
     (case acquireLock env s of
        Inl e \<Rightarrow> (Inl e, s)
      | Inr s1 \<Rightarrow> (case fn s1 of (r, s2) \<Rightarrow> (r, releaseLock s2)))"

subsection \<open>CRUD\<close>

definition decodeFile :: "Env \<Rightarrow> jsstring \<Rightarrow> Contact" where
  "decodeFile env f = vcardToContact (platform env) (jsonParse env) (newId env) (nowIso env) f"

definition encodeContact :: "Env \<Rightarrow> Contact \<Rightarrow> jsstring" where
  "encodeContact env c = contactToVCard (jsonStringify env) c"

definition get :: "Env \<Rightarrow> jsstring \<Rightarrow> Store \<Rightarrow> error + Contact" where
  "get env i s =
     (case readFile (contactsDir s) i of
        Some f \<Rightarrow> Inr (decodeFile env f)
      | None \<Rightarrow>
          (case readFile (archiveDir s) i of
             Some f \<Rightarrow> Inr (decodeFile env f)
           | None \<Rightarrow> Inl (ContactNotFoundError i)))"

definition create :: "Env \<Rightarrow> ContactFields \<Rightarrow> Store \<Rightarrow> (error + Contact) \<times> Store" where
  "create env flds =
     withLock env (\<lambda>s.
       let contact = normalizeContact (platform env) (parsePhoneNumber env)
                       (createContact (newId env) (nowIso env) flds)
       in case writeFile (contactsDir s) (cid contact) (encodeContact env contact) of
            Inl e \<Rightarrow> (Inl e, s)
          | Inr d \<Rightarrow>
              (Inr contact,
               gitCommit env (js ''Create contact: '' @ fullName contact
                                @ js '' ('' @ cid contact @ js '')'')
                 (s\<lparr>contactsDir := d\<rparr>)))"

text \<open>
  \<open>Partial<Omit<Contact, 'id' | 'metadata'>>\<close>: \<open>None\<close> is a field that is absent (or
  \<open>undefined\<close>); in \<open>u_name\<close> the same holds for each name part.
\<close>

record ContactUpdate =
  u_fullName :: "jsstring option"
  u_name :: "ContactName option"
  u_emails :: "ContactEmail list option"
  u_phones :: "ContactPhone list option"
  u_addresses :: "ContactAddress list option"
  u_organization :: "ContactOrganization option"
  u_birthday :: "jsstring option"
  u_anniversary :: "jsstring option"
  u_urls :: "ContactUrl list option"
  u_notes :: "jsstring option"
  u_categories :: "jsstring list option"
  u_photo :: "jsstring option"

definition orElse :: "'a option \<Rightarrow> 'a option \<Rightarrow> 'a option" where
  "orElse new old = (case new of Some v \<Rightarrow> Some v | None \<Rightarrow> old)"

text \<open>\<open>{ ...existing.name, ...updates.name }\<close>.\<close>

definition spreadName :: "ContactName \<Rightarrow> ContactName \<Rightarrow> ContactName" where
  "spreadName old new =
     \<lparr>namePrefix = orElse (namePrefix new) (namePrefix old),
      givenName = orElse (givenName new) (givenName old),
      middleName = orElse (middleName new) (middleName old),
      familyName = orElse (familyName new) (familyName old),
      nameSuffix = orElse (nameSuffix new) (nameSuffix old)\<rparr>"

text \<open>
  The assignments of \<open>update\<close>, in the order of the source, and the list
  \<open>changedFields\<close>.  \<open>assignIfPresent v assign\<close> is
  \<open>if (v !== undefined) assign(v)\<close>.
\<close>

definition assignIfPresent :: "'a option \<Rightarrow> ('a \<Rightarrow> Contact \<Rightarrow> Contact) \<Rightarrow> Contact \<Rightarrow> Contact" where
  "assignIfPresent v assign existing = (case v of Some x \<Rightarrow> assign x existing | None \<Rightarrow> existing)"

definition applyUpdates :: "ContactUpdate \<Rightarrow> Contact \<Rightarrow> Contact" where
  "applyUpdates u existing =
     foldl (\<lambda>e step. step e) existing
       [assignIfPresent (u_fullName u) (\<lambda>v e. if v \<noteq> fullName e then e\<lparr>fullName := v\<rparr> else e),
        assignIfPresent (u_name u) (\<lambda>v e. e\<lparr>name := spreadName (name e) v\<rparr>),
        assignIfPresent (u_emails u) (\<lambda>v e. e\<lparr>emails := v\<rparr>),
        assignIfPresent (u_phones u) (\<lambda>v e. e\<lparr>phones := v\<rparr>),
        assignIfPresent (u_addresses u) (\<lambda>v e. e\<lparr>addresses := v\<rparr>),
        assignIfPresent (u_organization u) (\<lambda>v e. e\<lparr>organization := Some v\<rparr>),
        assignIfPresent (u_birthday u) (\<lambda>v e. e\<lparr>birthday := Some v\<rparr>),
        assignIfPresent (u_anniversary u) (\<lambda>v e. e\<lparr>anniversary := Some v\<rparr>),
        assignIfPresent (u_urls u) (\<lambda>v e. e\<lparr>urls := v\<rparr>),
        assignIfPresent (u_notes u) (\<lambda>v e. e\<lparr>notes := Some v\<rparr>),
        assignIfPresent (u_categories u) (\<lambda>v e. e\<lparr>categories := v\<rparr>),
        assignIfPresent (u_photo u) (\<lambda>v e. e\<lparr>photo := Some v\<rparr>)]"

definition changedFields :: "ContactUpdate \<Rightarrow> Contact \<Rightarrow> jsstring list" where
  "changedFields u existing =
     (let nameChanged = (case u_fullName u of Some v \<Rightarrow> v \<noteq> fullName existing | None \<Rightarrow> False)
      in (if nameChanged then [js ''name''] else [])
         @ (if u_name u = None then [] else if nameChanged then [] else [js ''name''])
         @ (if u_emails u = None then [] else [js ''emails''])
         @ (if u_phones u = None then [] else [js ''phones''])
         @ (if u_addresses u = None then [] else [js ''addresses''])
         @ (if u_organization u = None then [] else [js ''organization''])
         @ (if u_birthday u = None then [] else [js ''birthday''])
         @ (if u_anniversary u = None then [] else [js ''anniversary''])
         @ (if u_urls u = None then [] else [js ''urls''])
         @ (if u_notes u = None then [] else [js ''notes''])
         @ (if u_categories u = None then [] else [js ''categories''])
         @ (if u_photo u = None then [] else [js ''photo'']))"

text \<open>The record \<open>update\<close> writes and returns.\<close>

definition updatedContact :: "Env \<Rightarrow> ContactUpdate \<Rightarrow> Contact \<Rightarrow> Contact" where
  "updatedContact env u existing =
     (let e1 = applyUpdates u existing;
          e2 = e1\<lparr>metadata := (metadata e1)\<lparr>modified := nowIso env\<rparr>\<rparr>
      in normalizeContact (platform env) (parsePhoneNumber env) e2)"

definition updateMessage :: "ContactUpdate \<Rightarrow> Contact \<Rightarrow> Contact \<Rightarrow> jsstring" where
  "updateMessage u existing normalized =
     js ''Update contact: '' @ fullName normalized @ js '' - changed ''
       @ (if changedFields u existing \<noteq> [] then joinWith (js '', '') (changedFields u existing)
          else js ''metadata'')"

definition update :: "Env \<Rightarrow> jsstring \<Rightarrow> ContactUpdate \<Rightarrow> Store \<Rightarrow> (error + Contact) \<times> Store" where
  "update env i u =
     withLock env (\<lambda>s.
       case get env i s of
         Inl e \<Rightarrow> (Inl e, s)
       | Inr existing \<Rightarrow>
           (case writeFile (contactsDir s) i
                   (encodeContact env (updatedContact env u existing)) of
              Inl e \<Rightarrow> (Inl e, s)
            | Inr d \<Rightarrow>
                (Inr (updatedContact env u existing),
                 gitCommit env (updateMessage u existing (updatedContact env u existing))
                   (s\<lparr>contactsDir := d\<rparr>))))"

definition deleteMessage :: "bool \<Rightarrow> Contact \<Rightarrow> jsstring \<Rightarrow> jsstring" where
  "deleteMessage permanent contact i =
     (if permanent then js ''Delete contact permanently: '' else js ''Archive contact: '')
       @ fullName contact @ js '' ('' @ i @ js '')''"

definition delete :: "Env \<Rightarrow> jsstring \<Rightarrow> bool \<Rightarrow> Store \<Rightarrow> (error + unit) \<times> Store" where
  "delete env i permanent =
     withLock env (\<lambda>s.
       case get env i s of
         Inl e \<Rightarrow> (Inl e, s)
       | Inr contact \<Rightarrow>
           if permanent then
             (case gitRemove Contacts i s of
                Inr s1 \<Rightarrow> (Inr (), gitCommit env (deleteMessage True contact i) s1)
              | Inl _ \<Rightarrow>
                  (case gitRemove Archive i s of
                     Inr s1 \<Rightarrow> (Inr (), gitCommit env (deleteMessage True contact i) s1)
                   | Inl e \<Rightarrow> (Inl e, s)))
           else
             (case gitMoveToArchive i s of
                (Inr _, s1) \<Rightarrow> (Inr (), gitCommit env (deleteMessage False contact i) s1)
              | (Inl e, s1) \<Rightarrow> (Inl e, s1)))"

subsection \<open>Rollback\<close>

datatype RollbackMode = LastN | ToCommit | ToTag

text \<open>\<open>count\<close> is a JavaScript number; the integers are modelled.\<close>

record RollbackOptions =
  mode :: RollbackMode
  count :: "int option"
  commitHash :: "jsstring option"
  tagName :: "jsstring option"
  dryRun :: "bool option"

record RollbackResult =
  revertedCommits :: nat
  safetyTag :: jsstring

text \<open>The decimal digits of \<open>Date.now()\<close> in the tag name.\<close>

function digitsOf :: "nat \<Rightarrow> jsstring" where
  "digitsOf n =
     (if n < 10 then [48 + of_nat n]
      else digitsOf (n div 10) @ [48 + of_nat (n mod 10)])"
  by pat_completeness auto
termination
  by (relation "measure (\<lambda>n. n)") auto

declare digitsOf.simps [simp del]

definition numberToString :: "int \<Rightarrow> jsstring" where
  "numberToString n =
     (if n < 0 then js ''-'' @ digitsOf (nat (- n)) else digitsOf (nat n))"

definition safetyTagName :: "Env \<Rightarrow> jsstring" where
  "safetyTagName env = js ''pre-rollback-'' @ numberToString (nowMs env)"

text \<open>
  The revert loops.  \<open>stopAt\<close> is the test that ends the \<open>to-commit\<close> loop before the
  revert; a failing revert ends every loop.  The result is the number of reverts done
  and the store after them.
\<close>

fun revertLoop :: "Env \<Rightarrow> (Commit \<Rightarrow> bool) \<Rightarrow> Commit list \<Rightarrow> nat \<times> Store \<Rightarrow> nat \<times> Store" where
  "revertLoop env stopAt [] acc = acc"
| "revertLoop env stopAt (entry # rest) (n, s) =
     (if stopAt entry then (n, s)
      else (case gitRevert env (hash entry) s of
              None \<Rightarrow> (n, s)
            | Some s1 \<Rightarrow> revertLoop env stopAt rest (Suc n, s1)))"

definition matchesHash :: "jsstring \<Rightarrow> Commit \<Rightarrow> bool" where
  "matchesHash h entry = (hash entry = h \<or> startsWith (hash entry) h)"

definition neverStop :: "Commit \<Rightarrow> bool" where
  "neverStop entry = False"

definition rollback :: "Env \<Rightarrow> RollbackOptions \<Rightarrow> Store \<Rightarrow> (error + RollbackResult) \<times> Store" where
  "rollback env options =
     withLock env (\<lambda>s.
       case gitTag (safetyTagName env) s of
         Inl e \<Rightarrow> (Inl e, s)
       | Inr s1 \<Rightarrow>
           if dryRun options = Some True
           then (Inr \<lparr>revertedCommits = 0, safetyTag = safetyTagName env\<rparr>, s1)
           else
             (case mode options of
                LastN \<Rightarrow>
                  (case revertLoop env neverStop
                          (gitLog (case count options of Some c \<Rightarrow> c | None \<Rightarrow> 1) s1) (0, s1) of
                     (n, s2) \<Rightarrow> (Inr \<lparr>revertedCommits = n, safetyTag = safetyTagName env\<rparr>, s2))
              | ToCommit \<Rightarrow>
                  (if \<not> truthy (commitHash options)
                   then (Inl (StoreError (js ''commitHash required for to-commit mode'')), s1)
                   else
                     (case revertLoop env (matchesHash (the (commitHash options)))
                             (gitLog 100 s1) (0, s1) of
                        (n, s2) \<Rightarrow> (Inr \<lparr>revertedCommits = n, safetyTag = safetyTagName env\<rparr>, s2)))
              | ToTag \<Rightarrow>
                  (if \<not> truthy (tagName options)
                   then (Inl (StoreError (js ''tagName required for to-tag mode'')), s1)
                   else if the (tagName options) \<notin> set (tags s1)
                   then (Inl (StoreError (js ''Tag not found: '' @ the (tagName options))), s1)
                   else
                     (case revertLoop env neverStop (gitLog 100 s1) (0, s1) of
                        (n, s2) \<Rightarrow> (Inr \<lparr>revertedCommits = n, safetyTag = safetyTagName env\<rparr>, s2)))))"

section \<open>Notions used to state and prove the properties\<close>

subsection \<open>Merge\<close>

text \<open>The modification time of a record whose date parses.\<close>

definition modifiedTime :: "(jsstring \<Rightarrow> int option) \<Rightarrow> Contact \<Rightarrow> int" where
  "modifiedTime getTime c = the (getTime (modified (metadata c)))"

subsection \<open>Example records for duplicate detection\<close>

definition withEmail :: "Contact \<Rightarrow> jsstring \<Rightarrow> Contact" where
  "withEmail c e =
     c\<lparr>emails := emails c @ [\<lparr>email_value = e, email_type = None, email_primary = None\<rparr>]\<rparr>"

definition withOrg :: "Contact \<Rightarrow> jsstring \<Rightarrow> Contact" where
  "withOrg c n = c\<lparr>organization := Some \<lparr>org_name = Some n, department = None, title = None\<rparr>\<rparr>"


definition janeA :: Contact where
  "janeA = withEmail (bareContact (js ''id-a'') (js ''Jane Smith'')) (js ''jane@example.com'')"

definition janeB :: Contact where
  "janeB = withEmail (bareContact (js ''id-b'') (js ''J. Smith'')) (js ''jane@example.com'')"



text \<open>A phone parser that recognises nothing (none of the examples has a phone).\<close>

definition noPhoneParse :: "jsstring \<Rightarrow> jsstring option" where
  "noPhoneParse raw = None"

definition defaultOptions :: DedupOptions where
  "defaultOptions = \<lparr>threshold = None, limit = None\<rparr>"

subsection \<open>Edit distance\<close>

text \<open>
  The recurrence the table implements, on reversed prefixes; it serves to show that
  \<open>levenshtein\<close> does not depend on the order of its arguments.
\<close>

fun levRec :: "'a list \<Rightarrow> 'a list \<Rightarrow> nat" where
  "levRec [] ys = length ys"
| "levRec (x # xs) [] = Suc (length xs)"
| "levRec (x # xs) (y # ys) =
     (if x = y then levRec xs ys
      else 1 + min (levRec xs (y # ys)) (min (levRec (x # xs) ys) (levRec xs ys)))"

fun initSegments :: "'a list \<Rightarrow> 'a list list" where
  "initSegments [] = [[]]"
| "initSegments (x # xs) = [] # map ((#) x) (initSegments xs)"

text \<open>The score of \<open>compareContacts\<close> as a function of the four tests.\<close>

definition pairScore :: "bool \<Rightarrow> bool \<Rightarrow> rat \<Rightarrow> bool \<Rightarrow> rat" where
  "pairScore emailHit phoneHit nameSim orgHit =
     (let s1 = (if emailHit then 95 / 100 else (0::rat));
          s2 = (if phoneHit then max s1 (90 / 100) else s1);
          s3 = (if nameSim \<ge> 85 / 100 then max s2 (70 / 100)
                else if nameSim \<ge> 65 / 100 then max s2 (50 / 100) else s2);
          s4 = (if orgHit \<and> s3 > 0 then min 1 (s3 + 15 / 100) else s3)
      in of_int (round (s4 * 100)) / 100)"

subsection \<open>The loops of duplicate detection\<close>

text \<open>\<open>orderedIn x y xs\<close>: \<open>x\<close> occurs in \<open>xs\<close> with \<open>y\<close> somewhere after it.\<close>

definition orderedIn :: "'a \<Rightarrow> 'a \<Rightarrow> 'a list \<Rightarrow> bool" where
  "orderedIn x y xs \<longleftrightarrow> (\<exists>pre post. xs = pre @ x # post \<and> y \<in> set post)"

text \<open>The candidate that the innermost loop pushes for a pair.\<close>

definition candidateOf ::
  "Platform \<Rightarrow> (jsstring \<Rightarrow> jsstring option) \<Rightarrow> Contact \<Rightarrow> Contact \<Rightarrow> DuplicateCandidate" where
  "candidateOf P parsePhone a b =
     \<lparr>contactA = toSummary a, contactB = toSummary b,
      confidence = cmp_confidence (compareContacts P parsePhone a b),
      matchedFields = cmp_matchedFields (compareContacts P parsePhone a b)\<rparr>"

text \<open>
  The invariant of the loops of \<open>findDuplicates\<close>, for the pairs \<open>E\<close> the loops can
  visit: a pair whose key has been seen and whose confidence reaches the threshold
  has its candidate in the list.
\<close>

definition covered ::
  "Platform \<Rightarrow> (jsstring \<Rightarrow> jsstring option) \<Rightarrow> rat \<Rightarrow> (Contact \<Rightarrow> Contact \<Rightarrow> bool)
     \<Rightarrow> jsstring list \<times> DuplicateCandidate list \<Rightarrow> bool" where
  "covered P parsePhone thr E st \<longleftrightarrow>
     (\<forall>x y. E x y \<longrightarrow> pairKey x y \<in> set (fst st) \<longrightarrow>
            thr \<le> cmp_confidence (compareContacts P parsePhone x y) \<longrightarrow>
            candidateOf P parsePhone x y \<in> set (snd st))"

definition keyInj :: "(Contact \<Rightarrow> Contact \<Rightarrow> bool) \<Rightarrow> bool" where
  "keyInj E \<longleftrightarrow>
     (\<forall>x y x' y'. E x y \<longrightarrow> E x' y' \<longrightarrow> pairKey x y = pairKey x' y' \<longrightarrow> x = x' \<and> y = y')"

definition optList :: "'a list option \<Rightarrow> 'a list" where
  "optList m = (case m of None \<Rightarrow> [] | Some v \<Rightarrow> v)"

subsection \<open>Example environment and stores\<close>

definition exampleHash :: "Store \<Rightarrow> jsstring" where
  "exampleHash s = js ''c'' @ numberToString (int (length (commits s)))"

text \<open>
  An environment for the examples: a fixed clock, no phone number recognised, and a
  \<open>git revert\<close> that always succeeds and records a revert commit.
\<close>

definition exampleEnv :: Env where
  "exampleEnv =
     \<lparr>platform = asciiPlatform,
      nowMs = 1767225600000, nowIso = js ''2026-01-01T00:00:00.000Z'', newId = js ''generated-id'',
      nextHash = exampleHash,
      gitRevert = (\<lambda>h s. Some (s\<lparr>commits := \<lparr>hash = exampleHash s, message = js ''Revert '' @ h\<rparr> # commits s\<rparr>)),
      parsePhoneNumber = (\<lambda>r. None),
      jsonStringify = (\<lambda>m. js ''{}''),
      jsonParse = (\<lambda>t. None)\<rparr>"

definition threeCommits :: Store where
  "threeCommits =
     \<lparr>contactsDir = Some [], archiveDir = Some [],
      commits = [\<lparr>hash = js ''c3'', message = js ''Create contact: C''\<rparr>,
                 \<lparr>hash = js ''c2'', message = js ''Create contact: B''\<rparr>,
                 \<lparr>hash = js ''c1'', message = js ''Initial commit''\<rparr>],
      tags = [], lockMtime = None\<rparr>"

definition toCommitOptions :: "jsstring \<Rightarrow> RollbackOptions" where
  "toCommitOptions h = \<lparr>mode = ToCommit, count = None, commitHash = Some h, tagName = None, dryRun = None\<rparr>"

definition notesOnly :: "jsstring \<Rightarrow> ContactUpdate" where
  "notesOnly x = \<lparr>u_fullName = None, u_name = None, u_emails = None, u_phones = None, u_addresses = None,
     u_organization = None, u_birthday = None, u_anniversary = None, u_urls = None, u_notes = Some x,
     u_categories = None, u_photo = None\<rparr>"

definition fieldsOf :: "jsstring \<Rightarrow> jsstring \<Rightarrow> ContactFields" where
  "fieldsOf i n = \<lparr>f_id = Some i, f_fullName = n, f_name = None, f_emails = None, f_phones = None,
     f_addresses = None, f_organization = None, f_birthday = None, f_anniversary = None, f_urls = None,
     f_notes = None, f_categories = None, f_photo = None, f_metadata = None\<rparr>"

text \<open>JSON functions for the examples, none of which has provider identifiers.\<close>

definition noJson :: "jsstring \<Rightarrow> (jsstring \<times> jsstring) list option" where
  "noJson t = None"

definition emptyJson :: "(jsstring \<times> jsstring) list \<Rightarrow> jsstring" where
  "emptyJson m = js ''{}''"

definition sampleContact :: Contact where
  "sampleContact =
     (withProvider (bareContact (js ''id-a'') (js ''Jane Smith'')) (js ''2024-06-01T00:00:00.000Z'') [])
       \<lparr>name := \<lparr>namePrefix = None, givenName = Some (js ''Jane''), middleName = None,
                  familyName = Some (js ''Smith''), nameSuffix = None\<rparr>\<rparr>"

text \<open>
  The fields of a record received from elsewhere, whose metadata carry a modification
  date later than the clock of \<open>exampleEnv\<close>.
\<close>

definition remoteFields :: ContactFields where
  "remoteFields =
     (fieldsOf (js ''id-a'') (js ''Jane Smith''))
       \<lparr>f_metadata := Some \<lparr>created = js ''2025-01-01T00:00:00.000Z'',
                             modified = js ''2030-01-01T00:00:00.000Z'',
                             source = None, providerIds = [], archived = False, etag = None\<rparr>\<rparr>"

text \<open>The physical lines of an encoded record.\<close>

definition physicalLines :: "jsstring \<Rightarrow> jsstring list" where
  "physicalLines text = splitPair CR LF text"

section \<open>Properties of the merge resolver\<close>

lemma setProp_map_of: "map_of (setProp k v kvs) k' = (if k' = k then Some v else map_of kvs k')"
  by (induction kvs) auto

lemma proto_key: "js ''__proto__'' \<in> set objectPrototypeKeys"
  by (simp add: objectPrototypeKeys_def)

lemma assignProp_falsy:
  "\<not> hasTruthyProp kvs k \<Longrightarrow>
   map_of (assignProp k v kvs) k' = (if k' = k then Some v else map_of kvs k')"
  using proto_key
  by (auto simp: assignProp_def setProp_map_of hasTruthyProp_def split: option.splits)

lemma mergeProviderEntries_map_of:
  "distinct (map fst es) \<Longrightarrow>
   map_of (mergeProviderEntries acc es) k =
     (if hasTruthyProp acc k then map_of acc k
      else case map_of es k of None \<Rightarrow> map_of acc k | Some v \<Rightarrow> Some v)"
proof (induction es arbitrary: acc)
  case Nil
  then show ?case by simp
next
  case (Cons e es)
  obtain p r where e: "e = (p, r)" by (cases e)
  from Cons.prems have d: "distinct (map fst es)" and nin: "p \<notin> fst ` set es"
    by (auto simp: e)
  have mo: "map_of es p = None" using nin by (simp add: map_of_eq_None_iff)
  show ?case
  proof (cases "hasTruthyProp acc p")
    case True
    then show ?thesis using Cons.IH[OF d, of acc] mo by (auto simp: e split: option.splits)
  next
    case False
    have h: "hasTruthyProp (assignProp p r acc) k = (if k = p then r \<noteq> [] else hasTruthyProp acc k)"
      using False by (auto simp: hasTruthyProp_def assignProp_falsy)
    show ?thesis
      using Cons.IH[OF d, of "assignProp p r acc"] mo False
      by (auto simp: e h assignProp_falsy split: option.splits)
  qed
qed

lemma hasTruthyProp_truthy:
  "hasTruthyProp acc k \<Longrightarrow> map_of acc k = Some v \<Longrightarrow> v \<noteq> []"
  by (simp add: hasTruthyProp_def)

lemma mergeProviderIds_Cons:
  "mergeProviderIds acc (c # cs) =
     mergeProviderIds (mergeProviderEntries acc (providerIds (metadata c))) cs"
  by (simp add: mergeProviderIds_def)

lemma mergeProviderEntries_keep:
  "distinct (map fst es) \<Longrightarrow> hasTruthyProp acc k \<Longrightarrow>
   map_of (mergeProviderEntries acc es) k = map_of acc k \<and>
   hasTruthyProp (mergeProviderEntries acc es) k"
  by (simp add: mergeProviderEntries_map_of hasTruthyProp_def)

lemma mergeProviderIds_keep:
  "\<forall>c\<in>set cs. distinct (map fst (providerIds (metadata c))) \<Longrightarrow> hasTruthyProp acc k \<Longrightarrow>
   map_of (mergeProviderIds acc cs) k = map_of acc k"
proof (induction cs arbitrary: acc)
  case Nil
  then show ?case by (simp add: mergeProviderIds_def)
next
  case (Cons c cs)
  have d: "distinct (map fst (providerIds (metadata c)))" using Cons.prems(1) by simp
  note step = mergeProviderEntries_keep[OF d Cons.prems(2)]
  show ?case
    using Cons.IH[of "mergeProviderEntries acc (providerIds (metadata c))"] Cons.prems(1) step
    by (simp add: mergeProviderIds_Cons)
qed

lemma mergeProviderIds_first:
  "\<forall>c\<in>set cs. distinct (map fst (providerIds (metadata c))) \<Longrightarrow> \<not> hasTruthyProp acc k \<Longrightarrow>
   find (\<lambda>c. truthy (map_of (providerIds (metadata c)) k)) cs = Some c \<Longrightarrow>
   map_of (mergeProviderIds acc cs) k = map_of (providerIds (metadata c)) k"
proof (induction cs arbitrary: acc)
  case Nil
  then show ?case by simp
next
  case (Cons d cs)
  let ?acc' = "mergeProviderEntries acc (providerIds (metadata d))"
  have dd: "distinct (map fst (providerIds (metadata d)))" using Cons.prems(1) by simp
  have rest: "\<forall>c\<in>set cs. distinct (map fst (providerIds (metadata c)))"
    using Cons.prems(1) by simp
  show ?case
  proof (cases "truthy (map_of (providerIds (metadata d)) k)")
    case True
    then have cd: "c = d" using Cons.prems(3) by simp
    from True obtain v where v: "map_of (providerIds (metadata d)) k = Some v" and ne: "v \<noteq> []"
      by (auto simp: truthy_def split: option.splits)
    have a: "map_of ?acc' k = Some v"
      using Cons.prems(2) v by (simp add: mergeProviderEntries_map_of[OF dd])
    have "hasTruthyProp ?acc' k" using a ne by (simp add: hasTruthyProp_def)
    then show ?thesis
      using mergeProviderIds_keep[OF rest, of ?acc' k] v a cd by (simp add: mergeProviderIds_Cons)
  next
    case False
    then have f: "find (\<lambda>c. truthy (map_of (providerIds (metadata c)) k)) cs = Some c"
      using Cons.prems(3) by simp
    have "\<not> hasTruthyProp ?acc' k"
      using Cons.prems(2) False
      by (auto simp: hasTruthyProp_def truthy_def mergeProviderEntries_map_of[OF dd]
          split: option.splits)
    then show ?thesis using Cons.IH[OF rest _ f] by (simp add: mergeProviderIds_Cons)
  qed
qed

lemma mergeProviderEntries_dom_mono:
  "map_of acc k \<noteq> None \<Longrightarrow> map_of (mergeProviderEntries acc es) k \<noteq> None"
proof (induction es arbitrary: acc)
  case Nil
  then show ?case by simp
next
  case (Cons e es)
  obtain p r where e: "e = (p, r)" by (cases e)
  show ?case
  proof (cases "hasTruthyProp acc p")
    case True
    then show ?thesis using Cons by (simp add: e)
  next
    case False
    have "map_of (assignProp p r acc) k \<noteq> None"
      using Cons.prems False by (simp add: assignProp_falsy)
    then show ?thesis using Cons.IH False by (simp add: e)
  qed
qed

lemma mergeProviderIds_dom_mono:
  "map_of acc k \<noteq> None \<Longrightarrow> map_of (mergeProviderIds acc cs) k \<noteq> None"
proof (induction cs arbitrary: acc)
  case Nil
  then show ?case by (simp add: mergeProviderIds_def)
next
  case (Cons c cs)
  have "map_of (mergeProviderEntries acc (providerIds (metadata c))) k \<noteq> None"
    using Cons.prems by (rule mergeProviderEntries_dom_mono)
  then show ?case using Cons.IH by (simp add: mergeProviderIds_Cons)
qed

lemma mergeProviderEntries_dom_new:
  "map_of es k \<noteq> None \<Longrightarrow> k \<notin> set objectPrototypeKeys \<Longrightarrow>
   map_of (mergeProviderEntries acc es) k \<noteq> None"
proof (induction es arbitrary: acc)
  case Nil
  then show ?case by simp
next
  case (Cons e es)
  obtain p r where e: "e = (p, r)" by (cases e)
  show ?case
  proof (cases "p = k")
    case True
    show ?thesis
    proof (cases "hasTruthyProp acc p")
      case True
      then have "map_of acc k \<noteq> None"
        using \<open>p = k\<close> Cons.prems(2) by (auto simp: hasTruthyProp_def split: option.splits)
      then have "map_of (mergeProviderEntries acc es) k \<noteq> None"
        by (rule mergeProviderEntries_dom_mono)
      then show ?thesis using True by (simp add: e)
    next
      case False
      have "map_of (assignProp p r acc) k \<noteq> None"
        using \<open>p = k\<close> False by (simp add: assignProp_falsy)
      then have "map_of (mergeProviderEntries (assignProp p r acc) es) k \<noteq> None"
        by (rule mergeProviderEntries_dom_mono)
      then show ?thesis using False by (simp add: e)
    qed
  next
    case False
    then have "map_of es k \<noteq> None" using Cons.prems by (simp add: e)
    then show ?thesis using Cons.IH Cons.prems(2) by (simp add: e)
  qed
qed

lemma mergeProviderIds_dom:
  "c \<in> set cs \<Longrightarrow> map_of (providerIds (metadata c)) k \<noteq> None \<Longrightarrow>
   k \<notin> set objectPrototypeKeys \<Longrightarrow> map_of (mergeProviderIds acc cs) k \<noteq> None"
proof (induction cs arbitrary: acc)
  case Nil
  then show ?case by simp
next
  case (Cons d cs)
  show ?case
  proof (cases "c = d")
    case True
    then have "map_of (mergeProviderEntries acc (providerIds (metadata d))) k \<noteq> None"
      using Cons.prems(2,3) by (simp add: mergeProviderEntries_dom_new)
    then show ?thesis by (simp add: mergeProviderIds_Cons mergeProviderIds_dom_mono)
  next
    case False
    then show ?thesis using Cons by (simp add: mergeProviderIds_Cons)
  qed
qed

lemma mergeUnionStep_providerIds:
  "providerIds (metadata (mergeUnionStep P g p other)) = providerIds (metadata p)"
  by (simp add: mergeUnionStep_def Let_def)

lemma mergeUnion_fold_providerIds:
  "providerIds (metadata (foldl (mergeUnionStep P g) p cs)) = providerIds (metadata p)"
  by (induction cs arbitrary: p) (simp_all add: mergeUnionStep_providerIds)

lemma applyFieldOverride_metadata: "metadata (applyFieldOverride t s f) = metadata t"
  by (simp add: applyFieldOverride_def)

lemma applyOverrides_metadata:
  "metadata (fst (applyOverrides cs ovs (m, ffe))) = metadata m"
proof (induction ovs arbitrary: m ffe)
  case Nil
  then show ?case by simp
next
  case (Cons ov ovs)
  obtain f i where ov: "ov = (f, i)" by (cases ov)
  show ?case using Cons.IH
    by (simp add: ov applyFieldOverride_metadata split: option.splits)
qed

lemma mergeContacts_result:
  "2 \<le> length contacts \<Longrightarrow>
   \<exists>r. mergeContacts P g now contacts strategy ovs = Inr r \<and>
       providerIds (metadata (mergedContact r)) =
         mergeProviderIds (providerIds (metadata (strategyBase P g strategy contacts))) contacts"
proof (cases ovs)
  case None
  assume "2 \<le> length contacts"
  then show ?thesis using None by (simp add: mergeContacts_def Let_def)
next
  case (Some os)
  assume l: "2 \<le> length contacts"
  obtain m f where a: "applyOverrides contacts os (strategyBase P g strategy contacts, []) = (m, f)"
    by (cases "applyOverrides contacts os (strategyBase P g strategy contacts, [])")
  have "metadata m = metadata (strategyBase P g strategy contacts)"
    using applyOverrides_metadata[of contacts os "strategyBase P g strategy contacts" "[]"] a
    by simp
  then show ?thesis using Some l a by (simp add: mergeContacts_def Let_def)
qed

subsection \<open>The record a sort puts first\<close>

lemma hd_insertSorted:
  "hd (insertSorted cmp x ys) = (if ys = [] then x else if cmp x (hd ys) \<le> 0 then x else hd ys)"
  by (cases ys) auto

lemma insertSorted_not_Nil: "insertSorted cmp x ys \<noteq> []"
  by (cases ys) auto

lemma jsSort_Cons: "jsSort cmp (x # xs) = insertSorted cmp x (jsSort cmp xs)"
  by (simp add: jsSort_def)

lemma jsSort_Nil_iff: "jsSort cmp xs = [] \<longleftrightarrow> xs = []"
  by (cases xs) (simp_all add: jsSort_def insertSorted_not_Nil)

lemma hd_jsSort_mem: "xs \<noteq> [] \<Longrightarrow> hd (jsSort cmp xs) \<in> set xs"
proof (induction xs)
  case Nil
  then show ?case by simp
next
  case (Cons x xs)
  then show ?case by (auto simp: jsSort_Cons hd_insertSorted jsSort_Nil_iff)
qed

lemma hd_jsSort_first_best:
  fixes f :: "'a \<Rightarrow> int"
  assumes "xs \<noteq> []"
      and "\<forall>a\<in>set xs. \<forall>b\<in>set xs. (cmp a b \<le> 0) = (f a \<le> f b)"
  shows "\<exists>pre post. xs = pre @ hd (jsSort cmp xs) # post \<and>
           (\<forall>d\<in>set xs. f (hd (jsSort cmp xs)) \<le> f d) \<and>
           (\<forall>d\<in>set pre. f (hd (jsSort cmp xs)) < f d)"
  using assms
proof (induction xs)
  case Nil
  then show ?case by simp
next
  case (Cons x xs)
  show ?case
  proof (cases "xs = []")
    case True
    have "[x] = [] @ x # []" by simp
    then show ?thesis using True by (auto simp: jsSort_def intro!: exI[of _ "[]"])
  next
    case False
    let ?h = "hd (jsSort cmp xs)"
    have c: "\<forall>a\<in>set xs. \<forall>b\<in>set xs. (cmp a b \<le> 0) = (f a \<le> f b)" using Cons.prems(2) by simp
    from Cons.IH[OF False c] obtain pre post where
      xs: "xs = pre @ ?h # post" and mn: "\<forall>d\<in>set xs. f ?h \<le> f d" and st: "\<forall>d\<in>set pre. f ?h < f d"
      by blast
    have hm: "?h \<in> set xs" using False by (rule hd_jsSort_mem)
    have cx: "(cmp x ?h \<le> 0) = (f x \<le> f ?h)" using Cons.prems(2) hm by simp
    have hd': "hd (jsSort cmp (x # xs)) = (if f x \<le> f ?h then x else ?h)"
      using False cx by (simp add: jsSort_Cons hd_insertSorted jsSort_Nil_iff)
    show ?thesis
    proof (cases "f x \<le> f ?h")
      case True
      have "x # xs = [] @ x # xs" by simp
      moreover have "\<forall>d\<in>set (x # xs). f x \<le> f d" using True mn by auto
      ultimately show ?thesis unfolding hd' using True
        by (intro exI[of _ "[]"] exI[of _ xs]) simp
    next
      case False
      have a: "x # xs = (x # pre) @ ?h # post" using xs by simp
      have b: "\<forall>d\<in>set (x # xs). f ?h \<le> f d" using False mn by auto
      have c': "\<forall>d\<in>set (x # pre). f ?h < f d" using False st by auto
      show ?thesis unfolding hd' using False a b c'
        by (intro exI[of _ "x # pre"] exI[of _ post]) simp
    qed
  qed
qed

lemma timeDiff_valid:
  "getTime x = Some tx \<Longrightarrow> getTime y = Some ty \<Longrightarrow> timeDiff getTime x y = tx - ty"
  by (simp add: timeDiff_def)

lemma mergeKeepNewest_first_latest:
  assumes "contacts \<noteq> []"
      and "\<forall>c\<in>set contacts. getTime (modified (metadata c)) \<noteq> None"
  shows "\<exists>pre post. contacts = pre @ mergeKeepNewest getTime contacts # post \<and>
           (\<forall>d\<in>set contacts. modifiedTime getTime d \<le> modifiedTime getTime (mergeKeepNewest getTime contacts)) \<and>
           (\<forall>d\<in>set pre. modifiedTime getTime d < modifiedTime getTime (mergeKeepNewest getTime contacts))"
proof -
  let ?cmp = "\<lambda>a b. timeDiff getTime (modified (metadata b)) (modified (metadata a))"
  let ?f = "\<lambda>c. - modifiedTime getTime c"
  have "\<forall>a\<in>set contacts. \<forall>b\<in>set contacts. (?cmp a b \<le> 0) = (?f a \<le> ?f b)"
  proof (intro ballI)
    fix a b assume "a \<in> set contacts" "b \<in> set contacts"
    then obtain ta tb where "getTime (modified (metadata a)) = Some ta"
      "getTime (modified (metadata b)) = Some tb" using assms(2) by blast
    then show "(?cmp a b \<le> 0) = (?f a \<le> ?f b)"
      by (simp add: timeDiff_valid modifiedTime_def)
  qed
  from hd_jsSort_first_best[OF assms(1), of ?cmp ?f, OF this]
  show ?thesis unfolding mergeKeepNewest_def by simp
qed

lemma mergeKeepOldest_first_earliest:
  assumes "contacts \<noteq> []"
      and "\<forall>c\<in>set contacts. getTime (modified (metadata c)) \<noteq> None"
  shows "\<exists>pre post. contacts = pre @ mergeKeepOldest getTime contacts # post \<and>
           (\<forall>d\<in>set contacts. modifiedTime getTime (mergeKeepOldest getTime contacts) \<le> modifiedTime getTime d) \<and>
           (\<forall>d\<in>set pre. modifiedTime getTime (mergeKeepOldest getTime contacts) < modifiedTime getTime d)"
proof -
  let ?cmp = "\<lambda>a b. timeDiff getTime (modified (metadata a)) (modified (metadata b))"
  let ?f = "\<lambda>c. modifiedTime getTime c"
  have "\<forall>a\<in>set contacts. \<forall>b\<in>set contacts. (?cmp a b \<le> 0) = (?f a \<le> ?f b)"
  proof (intro ballI)
    fix a b assume "a \<in> set contacts" "b \<in> set contacts"
    then obtain ta tb where "getTime (modified (metadata a)) = Some ta"
      "getTime (modified (metadata b)) = Some tb" using assms(2) by blast
    then show "(?cmp a b \<le> 0) = (?f a \<le> ?f b)"
      by (simp add: timeDiff_valid modifiedTime_def)
  qed
  from hd_jsSort_first_best[OF assms(1), of ?cmp ?f, OF this]
  show ?thesis unfolding mergeKeepOldest_def by simp
qed

text \<open>
  C6 (as stated, refuted).  Under \<open>keep-newest\<close> the merged record starts from the
  most recently modified input, so its provider identifier survives even though an
  earlier record of the input list maps the same system to another identifier.
\<close>

theorem mergeContacts_keepNewest_providerId_counterexample:
  "\<not> isl (mergeContacts asciiPlatform exampleGetTime (js ''2026-01-01T00:00:00.000Z'')
            [cOld, cNew] KeepNewest None) \<and>
   map_of (providerIds (metadata (mergedContact (projr
      (mergeContacts asciiPlatform exampleGetTime (js ''2026-01-01T00:00:00.000Z'')
         [cOld, cNew] KeepNewest None)))))
     (js ''google'') = Some (js ''g-new'') \<and>
   spec_firstListedProviderId [cOld, cNew] (js ''google'') = Some (js ''g-old'')"
  by (simp add: mergeContacts_def strategyBase_def mergeKeepNewest_def jsSort_def timeDiff_def
      exampleGetTime_def cOld_def cNew_def withProvider_def bareContact_def js_def
      spec_firstListedProviderId_def mergeProviderIds_def hasTruthyProp_def Let_def)

text \<open>
  C6 (amended).  For at least two input records and any strategy, \<open>mergeContacts\<close>
  succeeds, and the provider mapping of the merged record is determined as follows.
  Every system named by any source has an entry, unless its name is a member of
  \<open>Object.prototype\<close>.  A system for which the record the strategy starts from passes
  the test \<open>providerIds[provider]\<close> (a non-empty identifier of its own, or a name
  inherited from \<open>Object.prototype\<close>) keeps what that record has.  For any other system
  the first non-empty identifier in input order is taken.  The starting mapping is
  that of the first input record under \<open>union\<close>; under \<open>keep-newest\<close> (\<open>keep-oldest\<close>),
  when every modification date parses, it is that of the first record of the input
  whose modification time is the latest (earliest).
\<close>

theorem mergeContacts_providerIds:
  assumes len: "2 \<le> length contacts"
      and dist: "\<forall>c\<in>set contacts. distinct (map fst (providerIds (metadata c)))"
  shows "\<exists>r. mergeContacts P getTime now contacts strategy overrides = Inr r \<and>
     (\<forall>c\<in>set contacts. \<forall>k. k \<notin> set objectPrototypeKeys \<longrightarrow>
          map_of (providerIds (metadata c)) k \<noteq> None \<longrightarrow>
          map_of (providerIds (metadata (mergedContact r))) k \<noteq> None) \<and>
     (\<forall>k. hasTruthyProp (providerIds (metadata (strategyBase P getTime strategy contacts))) k \<longrightarrow>
          map_of (providerIds (metadata (mergedContact r))) k =
          map_of (providerIds (metadata (strategyBase P getTime strategy contacts))) k) \<and>
     (\<forall>k c. \<not> hasTruthyProp (providerIds (metadata (strategyBase P getTime strategy contacts))) k \<longrightarrow>
          find (\<lambda>c. truthy (map_of (providerIds (metadata c)) k)) contacts = Some c \<longrightarrow>
          map_of (providerIds (metadata (mergedContact r))) k = map_of (providerIds (metadata c)) k) \<and>
     (strategy = UnionStrategy \<longrightarrow>
          providerIds (metadata (strategyBase P getTime strategy contacts)) =
          providerIds (metadata (hd contacts))) \<and>
     (strategy = KeepNewest \<longrightarrow> (\<forall>c\<in>set contacts. getTime (modified (metadata c)) \<noteq> None) \<longrightarrow>
          (\<exists>pre post. contacts = pre @ strategyBase P getTime strategy contacts # post \<and>
             (\<forall>d\<in>set contacts. modifiedTime getTime d \<le>
                  modifiedTime getTime (strategyBase P getTime strategy contacts)) \<and>
             (\<forall>d\<in>set pre. modifiedTime getTime d <
                  modifiedTime getTime (strategyBase P getTime strategy contacts)))) \<and>
     (strategy = KeepOldest \<longrightarrow> (\<forall>c\<in>set contacts. getTime (modified (metadata c)) \<noteq> None) \<longrightarrow>
          (\<exists>pre post. contacts = pre @ strategyBase P getTime strategy contacts # post \<and>
             (\<forall>d\<in>set contacts. modifiedTime getTime (strategyBase P getTime strategy contacts) \<le>
                  modifiedTime getTime d) \<and>
             (\<forall>d\<in>set pre. modifiedTime getTime (strategyBase P getTime strategy contacts) <
                  modifiedTime getTime d)))"
proof -
  let ?base = "strategyBase P getTime strategy contacts"
  from mergeContacts_result[OF len, of P getTime now strategy overrides]
  obtain r where r: "mergeContacts P getTime now contacts strategy overrides = Inr r"
    and p: "providerIds (metadata (mergedContact r)) =
         mergeProviderIds (providerIds (metadata ?base)) contacts"
    by blast
  have ne: "contacts \<noteq> []" using len by auto
  have u: "strategy = UnionStrategy \<longrightarrow>
          providerIds (metadata ?base) = providerIds (metadata (hd contacts))"
    by (simp add: strategyBase_def mergeUnion_def mergeUnion_fold_providerIds)
  have d: "\<forall>c\<in>set contacts. \<forall>k. k \<notin> set objectPrototypeKeys \<longrightarrow>
          map_of (providerIds (metadata c)) k \<noteq> None \<longrightarrow>
          map_of (providerIds (metadata (mergedContact r))) k \<noteq> None"
    unfolding p using mergeProviderIds_dom by blast
  have k: "\<forall>k. hasTruthyProp (providerIds (metadata ?base)) k \<longrightarrow>
          map_of (providerIds (metadata (mergedContact r))) k =
          map_of (providerIds (metadata ?base)) k"
    unfolding p using mergeProviderIds_keep[OF dist] by blast
  have f: "\<forall>k c. \<not> hasTruthyProp (providerIds (metadata ?base)) k \<longrightarrow>
          find (\<lambda>c. truthy (map_of (providerIds (metadata c)) k)) contacts = Some c \<longrightarrow>
          map_of (providerIds (metadata (mergedContact r))) k = map_of (providerIds (metadata c)) k"
    unfolding p using mergeProviderIds_first[OF dist] by blast
  have n: "strategy = KeepNewest \<longrightarrow> (\<forall>c\<in>set contacts. getTime (modified (metadata c)) \<noteq> None) \<longrightarrow>
          (\<exists>pre post. contacts = pre @ ?base # post \<and>
             (\<forall>d\<in>set contacts. modifiedTime getTime d \<le> modifiedTime getTime ?base) \<and>
             (\<forall>d\<in>set pre. modifiedTime getTime d < modifiedTime getTime ?base))"
    using mergeKeepNewest_first_latest[OF ne, of getTime] by (simp add: strategyBase_def)
  have o: "strategy = KeepOldest \<longrightarrow> (\<forall>c\<in>set contacts. getTime (modified (metadata c)) \<noteq> None) \<longrightarrow>
          (\<exists>pre post. contacts = pre @ ?base # post \<and>
             (\<forall>d\<in>set contacts. modifiedTime getTime ?base \<le> modifiedTime getTime d) \<and>
             (\<forall>d\<in>set pre. modifiedTime getTime ?base < modifiedTime getTime d))"
    using mergeKeepOldest_first_earliest[OF ne, of getTime] by (simp add: strategyBase_def)
  show ?thesis
    apply (rule exI[of _ r])
    apply (intro conjI)
          apply (rule r)
         apply (rule d)
        apply (rule k)
       apply (rule f)
      apply (rule u)
     apply (rule n)
    apply (rule o)
    done
qed

theorem mergeContacts_providerIds_witness:
  "\<exists>r. mergeContacts asciiPlatform exampleGetTime (js ''2026-01-01T00:00:00.000Z'')
          [cOld, cNew] KeepNewest None = Inr r \<and>
       strategyBase asciiPlatform exampleGetTime KeepNewest [cOld, cNew] = cNew \<and>
       map_of (providerIds (metadata (mergedContact r))) (js ''google'') = Some (js ''g-new'')"
proof -
  let ?base = "strategyBase asciiPlatform exampleGetTime KeepNewest [cOld, cNew]"
  have l: "2 \<le> length [cOld, cNew]" by simp
  have d: "\<forall>c\<in>set [cOld, cNew]. distinct (map fst (providerIds (metadata c)))"
    by (simp add: cOld_def cNew_def withProvider_def)
  have v: "\<forall>c\<in>set [cOld, cNew]. exampleGetTime (modified (metadata c)) \<noteq> None"
    by (simp add: cOld_def cNew_def withProvider_def exampleGetTime_def js_def)
  have t: "modifiedTime exampleGetTime cOld < modifiedTime exampleGetTime cNew"
    by (simp add: modifiedTime_def cOld_def cNew_def withProvider_def exampleGetTime_def js_def)
  from mergeContacts_providerIds[OF l d, of asciiPlatform exampleGetTime
        "js ''2026-01-01T00:00:00.000Z''" KeepNewest None]
  obtain r where
    r: "mergeContacts asciiPlatform exampleGetTime (js ''2026-01-01T00:00:00.000Z'')
          [cOld, cNew] KeepNewest None = Inr r"
    and k: "\<forall>k. hasTruthyProp (providerIds (metadata ?base)) k \<longrightarrow>
          map_of (providerIds (metadata (mergedContact r))) k =
          map_of (providerIds (metadata ?base)) k"
    and n: "KeepNewest = KeepNewest \<longrightarrow>
          (\<forall>c\<in>set [cOld, cNew]. exampleGetTime (modified (metadata c)) \<noteq> None) \<longrightarrow>
          (\<exists>pre post. [cOld, cNew] = pre @ ?base # post \<and>
             (\<forall>d\<in>set [cOld, cNew]. modifiedTime exampleGetTime d \<le> modifiedTime exampleGetTime ?base) \<and>
             (\<forall>d\<in>set pre. modifiedTime exampleGetTime d < modifiedTime exampleGetTime ?base))"
    by blast
  from n v obtain pre post where
    s: "[cOld, cNew] = pre @ ?base # post"
    and m: "\<forall>d\<in>set [cOld, cNew]. modifiedTime exampleGetTime d \<le> modifiedTime exampleGetTime ?base"
    by blast
  have "?base \<in> set [cOld, cNew]" by (subst s) simp
  then have "?base = cOld \<or> ?base = cNew" by auto
  moreover have "?base \<noteq> cOld" using m t by auto
  ultimately have b: "?base = cNew" by simp
  have h: "hasTruthyProp (providerIds (metadata cNew)) (js ''google'')"
    by (simp add: cNew_def withProvider_def hasTruthyProp_def js_def)
  have "map_of (providerIds (metadata (mergedContact r))) (js ''google'') = Some (js ''g-new'')"
    using k h unfolding b by (simp add: cNew_def withProvider_def)
  then show ?thesis using r b by blast
qed

text \<open>
  C7 (evaluation at the failing input).  Three records carry the notes X, Y, X; the
  guard of \<open>mergeUnion\<close> compares the incoming note with the whole accumulated note,
  so the third record's X is appended again.
\<close>

theorem mergeUnion_notes_nonadjacent_duplicate:
  "notes (mergeUnion P getTime
      [withNotes (bareContact (js ''id-a'') (js ''Jane'')) (js ''X''),
       withNotes (bareContact (js ''id-b'') (js ''Jane'')) (js ''Y''),
       withNotes (bareContact (js ''id-c'') (js ''Jane'')) (js ''X'')]) =
   Some (js ''X'' @ noteSeparator @ js ''Y'' @ noteSeparator @ js ''X'')"
  by (simp add: mergeUnion_def mergeUnionStep_def Let_def bareContact_def withNotes_def
      combineNotes_def truthy_def js_def noteSeparator_def)

section \<open>Properties of duplicate detection\<close>

subsection \<open>The edit distance computed by the table\<close>

lemma levRec_Nil2: "levRec xs [] = length xs"
  by (cases xs) simp_all

lemma levRec_sym: "levRec xs ys = levRec ys xs"
proof (induction xs ys rule: levRec.induct)
  case (1 ys)
  then show ?case by (simp add: levRec_Nil2)
next
  case (2 x xs)
  then show ?case by simp
next
  case (3 x xs y ys)
  then show ?case by (auto simp: min.commute min.left_commute)
qed

lemma levRow_initSegments:
  "levRow x bs (map (\<lambda>q. levRec ra (rev (pb @ q))) (initSegments bs)) (levRec (x # ra) (rev pb)) =
   map (\<lambda>q. levRec (x # ra) (rev (pb @ q))) (tl (initSegments bs))"
proof (induction bs arbitrary: pb)
  case Nil
  then show ?case by simp
next
  case (Cons b bs)
  obtain r where r: "map (\<lambda>q. levRec ra (rev ((pb @ [b]) @ q))) (initSegments bs) = levRec ra (b # rev pb) # r"
    by (cases bs) simp_all
  have cell: "(if x = b then levRec ra (rev pb)
               else 1 + min (levRec ra (b # rev pb)) (min (levRec (x # ra) (rev pb)) (levRec ra (rev pb))))
              = levRec (x # ra) (rev (pb @ [b]))"
    by simp
  have ih: "levRow x bs (map (\<lambda>q. levRec ra (rev ((pb @ [b]) @ q))) (initSegments bs)) (levRec (x # ra) (rev (pb @ [b]))) =
   map (\<lambda>q. levRec (x # ra) (rev ((pb @ [b]) @ q))) (tl (initSegments bs))"
    by (rule Cons.IH)
  have m: "map (\<lambda>q. levRec ra (rev (pb @ q))) (initSegments (b # bs)) =
           levRec ra (rev pb) # map (\<lambda>q. levRec ra (rev ((pb @ [b]) @ q))) (initSegments bs)"
    by (simp add: comp_def)
  have t: "map (\<lambda>q. levRec (x # ra) (rev (pb @ q))) (tl (initSegments (b # bs))) =
           map (\<lambda>q. levRec (x # ra) (rev ((pb @ [b]) @ q))) (initSegments bs)"
    by (simp add: comp_def)
  have t2: "map (\<lambda>q. levRec (x # ra) (rev ((pb @ [b]) @ q))) (initSegments bs) =
            levRec (x # ra) (rev (pb @ [b])) # map (\<lambda>q. levRec (x # ra) (rev ((pb @ [b]) @ q))) (tl (initSegments bs))"
    by (cases bs) simp_all
  show ?case
    unfolding m t r
    apply (subst t2)
    using ih unfolding r
    by (auto simp: Let_def)
qed

lemma map_length_initSegments: "map (\<lambda>q. length (pb @ q)) (initSegments bs) = [length pb..<Suc (length pb + length bs)]"
proof (induction bs arbitrary: pb)
  case Nil
  then show ?case by simp
next
  case (Cons b bs)
  have "map (\<lambda>q. length (pb @ q)) (initSegments (b # bs)) =
        length pb # map (\<lambda>q. length ((pb @ [b]) @ q)) (initSegments bs)"
    by (simp add: comp_def)
  also have "\<dots> = length pb # [Suc (length pb)..<Suc (Suc (length pb) + length bs)]"
    using Cons.IH[of "pb @ [b]"] by simp
  also have "\<dots> = [length pb..<Suc (length pb + length (b # bs))]"
    by (simp add: upt_conv_Cons del: upt_Suc)
  finally show ?case .
qed

lemma initSegments_nonempty: "initSegments bs = [] # tl (initSegments bs)"
  by (cases bs) simp_all

lemma initSegments_ne: "initSegments bs \<noteq> []"
  by (cases bs) simp_all

lemma last_initSegments: "last (initSegments bs) = bs"
  by (induction bs) (simp_all add: last_map initSegments_ne)

lemma levLoop_initSegments:
  "levLoop as b (length ra) (map (\<lambda>q. levRec ra (rev q)) (initSegments b)) =
   map (\<lambda>q. levRec (rev as @ ra) (rev q)) (initSegments b)"
proof (induction as arbitrary: ra)
  case Nil
  then show ?case by simp
next
  case (Cons a as)
  have row: "levRow a b (map (\<lambda>q. levRec ra (rev q)) (initSegments b)) (Suc (length ra)) =
             map (\<lambda>q. levRec (a # ra) (rev q)) (tl (initSegments b))"
    using levRow_initSegments[of a b ra "[]"] by simp
  have "Suc (length ra) # levRow a b (map (\<lambda>q. levRec ra (rev q)) (initSegments b)) (Suc (length ra)) =
        map (\<lambda>q. levRec (a # ra) (rev q)) (initSegments b)"
    by (subst (2) initSegments_nonempty) (simp add: row)
  then show ?case using Cons.IH[of "a # ra"] by simp
qed

lemma levenshtein_levRec: "levenshtein a b = levRec (rev a) (rev b)"
proof -
  have "[0..<Suc (length b)] = map (\<lambda>q. levRec [] (rev q)) (initSegments b)"
    using map_length_initSegments[of "[]" b] by simp
  then have "levLoop a b 0 [0..<Suc (length b)] = map (\<lambda>q. levRec (rev a) (rev q)) (initSegments b)"
    using levLoop_initSegments[of a b "[]"] by simp
  then show ?thesis
    by (simp add: levenshtein_def last_map last_initSegments initSegments_ne del: upt_Suc)
qed

lemma levenshtein_sym: "levenshtein a b = levenshtein b a"
  by (simp add: levenshtein_levRec levRec_sym)

lemma compareContacts_confidence:
  "cmp_confidence (compareContacts P pp a b) =
     pairScore (emailMatch P a b \<noteq> None) (phoneMatch pp a b \<noteq> None)
       (computeNameSimilarity P a b) (orgMatch P a b)"
  by (simp add: compareContacts_def pairScore_def Let_def split: option.splits prod.splits)

lemma find_None_sym:
  "(find (\<lambda>e. e \<in> set ys) xs = None) = (find (\<lambda>e. e \<in> set xs) ys = None)"
  by (auto simp: find_None_iff)

lemma emailMatch_sym: "(emailMatch P a b = None) = (emailMatch P b a = None)"
  unfolding emailMatch_def by (rule find_None_sym)

lemma phoneMatch_sym: "(phoneMatch pp a b = None) = (phoneMatch pp b a = None)"
  unfolding phoneMatch_def by (rule find_None_sym)

lemma orgMatch_sym: "orgMatch P a b = orgMatch P b a"
  by (auto simp: orgMatch_def)

lemma computeNameSimilarity_sym: "computeNameSimilarity P a b = computeNameSimilarity P b a"
proof -
  have l: "levenshtein (trim (toLowerCase P (fullName a))) (trim (toLowerCase P (fullName b))) =
           levenshtein (trim (toLowerCase P (fullName b))) (trim (toLowerCase P (fullName a)))"
    by (rule levenshtein_sym)
  show ?thesis
    unfolding computeNameSimilarity_def Let_def l
    by (auto simp: max.commute)
qed

lemma pairScore_email: "pairScore True ph ns og = (if og then 1 else 95 / 100)"
  by (simp add: pairScore_def Let_def max_def min_def)


lemma emailMatch_shared:
  "emailMatch P a b \<noteq> None \<longleftrightarrow>
     set (map (\<lambda>e. normalizeEmail P (email_value e)) (emails a)) \<inter>
     set (map (\<lambda>e. normalizeEmail P (email_value e)) (emails b)) \<noteq> {}"
  unfolding emailMatch_def find_None_iff by blast

text \<open>
  C10.  The confidence of a pair does not depend on the order of the two records.
\<close>

theorem compareContacts_symmetric:
  "cmp_confidence (compareContacts P parsePhone a b) = cmp_confidence (compareContacts P parsePhone b a)"
  by (simp add: compareContacts_confidence emailMatch_sym[of P a b] phoneMatch_sym[of parsePhone a b]
      orgMatch_sym[of P a b] computeNameSimilarity_sym[of P a b])



subsection \<open>The blocks\<close>

lemma addToBlock_map_of:
  "map_of (addToBlock k c bl) k' =
     (if k' = k then Some (optList (map_of bl k) @ [c]) else map_of bl k')"
  by (induction bl) (auto simp: optList_def)

lemma addToBlock_keys: "fst ` set (addToBlock k c bl) = insert k (fst ` set bl)"
proof (induction bl)
  case Nil
  then show ?case by simp
next
  case (Cons e bl)
  obtain k' v where e: "e = (k', v)" by (cases e)
  show ?case using Cons by (auto simp: e)
qed

lemma addToBlock_distinct: "distinct (map fst bl) \<Longrightarrow> distinct (map fst (addToBlock k c bl))"
proof (induction bl)
  case Nil
  then show ?case by simp
next
  case (Cons e bl)
  obtain k' v where e: "e = (k', v)" by (cases e)
  show ?case using Cons addToBlock_keys[of k c bl] by (auto simp: e)
qed

lemma addKeys_map_of:
  "distinct ks \<Longrightarrow>
   map_of (foldl (\<lambda>bl key. addToBlock key c bl) bl ks) k =
     (if k \<in> set ks then Some (optList (map_of bl k) @ [c]) else map_of bl k)"
proof (induction ks arbitrary: bl)
  case Nil
  then show ?case by simp
next
  case (Cons x ks)
  then show ?case by (auto simp: addToBlock_map_of)
qed

lemma addKeys_distinct:
  "distinct (map fst bl) \<Longrightarrow> distinct (map fst (foldl (\<lambda>bl key. addToBlock key c bl) bl ks))"
  by (induction ks arbitrary: bl) (simp_all add: addToBlock_distinct)

lemma distinct_dedupFirst: "distinct (dedupFirst xs)"
  by (simp add: dedupFirst_def)

lemma distinct_blockKeys: "distinct (blockKeys P c)"
  by (simp add: blockKeys_def Let_def distinct_dedupFirst)

lemma buildBlocks_fold_map_of:
  "map_of (foldl (\<lambda>blocks contact. foldl (\<lambda>bl key. addToBlock key contact bl) blocks (blockKeys P contact)) bl cs) k =
     (let l = filter (\<lambda>c. k \<in> set (blockKeys P c)) cs
      in if l = [] then map_of bl k else Some (optList (map_of bl k) @ l))"
proof (induction cs arbitrary: bl)
  case Nil
  then show ?case by simp
next
  case (Cons c cs)
  show ?case
    by (simp add: Cons.IH addKeys_map_of[OF distinct_blockKeys] Let_def optList_def)
qed

lemma buildBlocks_fold_distinct:
  "distinct (map fst bl) \<Longrightarrow>
   distinct (map fst (foldl (\<lambda>blocks contact. foldl (\<lambda>bl key. addToBlock key contact bl) blocks (blockKeys P contact)) bl cs))"
  by (induction cs arbitrary: bl) (simp_all add: addKeys_distinct)

lemma buildBlocks_map_of:
  "map_of (buildBlocks P cs) k =
     (let l = filter (\<lambda>c. k \<in> set (blockKeys P c)) cs in if l = [] then None else Some l)"
  by (simp add: buildBlocks_def buildBlocks_fold_map_of optList_def Let_def)

lemma buildBlocks_distinct: "distinct (map fst (buildBlocks P cs))"
  by (simp add: buildBlocks_def buildBlocks_fold_distinct)

lemma buildBlocks_member:
  "(k, v) \<in> set (buildBlocks P cs) \<longleftrightarrow>
     v \<noteq> [] \<and> v = filter (\<lambda>c. k \<in> set (blockKeys P c)) cs"
proof -
  have "(k, v) \<in> set (buildBlocks P cs) \<longleftrightarrow> map_of (buildBlocks P cs) k = Some v"
    using buildBlocks_distinct by (metis map_of_eq_Some_iff)
  then show ?thesis by (auto simp: buildBlocks_map_of Let_def)
qed

subsection \<open>Pairs in list order\<close>

lemma orderedIn_Nil: "\<not> orderedIn x y []"
  by (simp add: orderedIn_def)

lemma orderedIn_Cons:
  "orderedIn x y (a # rest) \<longleftrightarrow> (x = a \<and> y \<in> set rest) \<or> orderedIn x y rest"
proof
  assume "orderedIn x y (a # rest)"
  then obtain pre post where s: "a # rest = pre @ x # post" and y: "y \<in> set post"
    by (auto simp: orderedIn_def)
  show "(x = a \<and> y \<in> set rest) \<or> orderedIn x y rest"
  proof (cases pre)
    case Nil
    then show ?thesis using s y by auto
  next
    case (Cons p pre')
    then have "rest = pre' @ x # post" using s by simp
    then show ?thesis using y by (auto simp: orderedIn_def)
  qed
next
  assume "(x = a \<and> y \<in> set rest) \<or> orderedIn x y rest"
  then show "orderedIn x y (a # rest)"
  proof
    assume "x = a \<and> y \<in> set rest"
    then have "a # rest = [] @ x # rest \<and> y \<in> set rest" by simp
    then show ?thesis unfolding orderedIn_def by blast
  next
    assume "orderedIn x y rest"
    then obtain pre post where "rest = pre @ x # post" "y \<in> set post"
      by (auto simp: orderedIn_def)
    then have "a # rest = (a # pre) @ x # post \<and> y \<in> set post" by simp
    then show ?thesis unfolding orderedIn_def by blast
  qed
qed

lemma orderedIn_split: "orderedIn x y (pre @ x # mid @ y # post)"
  unfolding orderedIn_def by (rule exI[of _ pre], rule exI[of _ "mid @ y # post"]) simp

lemma orderedIn_mem: "orderedIn x y xs \<Longrightarrow> x \<in> set xs \<and> y \<in> set xs"
  by (auto simp: orderedIn_def)

lemma orderedIn_filter: "orderedIn x y (filter p xs) \<Longrightarrow> orderedIn x y xs"
proof (induction xs)
  case Nil
  then show ?case by simp
next
  case (Cons a xs)
  then show ?case by (cases "p a") (auto simp: orderedIn_Cons)
qed

lemma filter_orderedIn: "orderedIn x y xs \<Longrightarrow> p x \<Longrightarrow> p y \<Longrightarrow> orderedIn x y (filter p xs)"
proof (induction xs)
  case Nil
  then show ?case by (simp add: orderedIn_Nil)
next
  case (Cons a xs)
  then show ?case by (cases "p a") (auto simp: orderedIn_Cons)
qed

lemma orderedIn_antisym: "distinct xs \<Longrightarrow> orderedIn x y xs \<Longrightarrow> \<not> orderedIn y x xs"
proof (induction xs)
  case Nil
  then show ?case by (simp add: orderedIn_Nil)
next
  case (Cons a xs)
  then show ?case using orderedIn_mem[of x y xs] orderedIn_mem[of y x xs]
    by (auto simp: orderedIn_Cons)
qed

subsection \<open>The key of a pair\<close>

lemma split_at_first:
  "c \<notin> set u \<Longrightarrow> c \<notin> set u' \<Longrightarrow> u @ c # v = u' @ c # v' \<Longrightarrow> u = u' \<and> v = v'"
proof (induction u arbitrary: u')
  case Nil
  then show ?case by (cases u') auto
next
  case (Cons a u)
  then show ?case by (cases u') auto
qed

lemma pairKey_eq:
  assumes "0x3A \<notin> set (cid x)" "0x3A \<notin> set (cid y)" "0x3A \<notin> set (cid x')" "0x3A \<notin> set (cid y')"
      and "pairKey x y = pairKey x' y'"
  shows "(cid x = cid x' \<and> cid y = cid y') \<or> (cid x = cid y' \<and> cid y = cid x')"
proof -
  have c: "js '':'' = [0x3A]" by (simp add: js_def)
  show ?thesis
    using assms(5) split_at_first[of "0x3A" "cid x" "cid x'" "cid y" "cid y'"]
      split_at_first[of "0x3A" "cid x" "cid y'" "cid y" "cid x'"]
      split_at_first[of "0x3A" "cid y" "cid x'" "cid x" "cid y'"]
      split_at_first[of "0x3A" "cid y" "cid y'" "cid x" "cid x'"]
      assms(1-4)
    by (auto simp: pairKey_def c split: if_splits)
qed

lemma keyInj_orderedIn:
  assumes d: "distinct (map cid contacts)"
      and nc: "\<forall>c\<in>set contacts. 0x3A \<notin> set (cid c)"
  shows "keyInj (\<lambda>x y. orderedIn x y contacts)"
  unfolding keyInj_def
proof (intro allI impI)
  fix x y x' y'
  assume o: "orderedIn x y contacts" and o': "orderedIn x' y' contacts"
    and k: "pairKey x y = pairKey x' y'"
  have m: "x \<in> set contacts" "y \<in> set contacts" "x' \<in> set contacts" "y' \<in> set contacts"
    using orderedIn_mem[OF o] orderedIn_mem[OF o'] by simp_all
  have i: "inj_on cid (set contacts)" and dc: "distinct contacts"
    using d by (auto simp: distinct_map)
  from pairKey_eq[OF _ _ _ _ k] nc m
  have "(cid x = cid x' \<and> cid y = cid y') \<or> (cid x = cid y' \<and> cid y = cid x')" by blast
  then have "(x = x' \<and> y = y') \<or> (x = y' \<and> y = x')"
    using i m by (auto dest: inj_onD)
  moreover have "\<not> (x = y' \<and> y = x')" using orderedIn_antisym[OF dc o] o' by auto
  ultimately show "x = x' \<and> y = y'" by blast
qed

subsection \<open>The loops\<close>

lemma visitPair_fst:
  "fst (visitPair P pp thr a b st) =
     (if pairKey a b \<in> set (fst st) then fst st else pairKey a b # fst st)"
  by (cases st) (simp add: visitPair_def Let_def)

lemma visitPair_snd:
  "snd (visitPair P pp thr a b st) =
     (if pairKey a b \<notin> set (fst st) \<and> thr \<le> cmp_confidence (compareContacts P pp a b)
      then snd st @ [candidateOf P pp a b] else snd st)"
  by (cases st) (simp add: visitPair_def Let_def candidateOf_def)

lemma visitPair_covered:
  assumes "keyInj E" "E a b" "covered P pp thr E st"
  shows "covered P pp thr E (visitPair P pp thr a b st)"
  unfolding covered_def
proof (intro allI impI)
  fix x y
  assume e: "E x y" and s: "pairKey x y \<in> set (fst (visitPair P pp thr a b st))"
    and t: "thr \<le> cmp_confidence (compareContacts P pp x y)"
  show "candidateOf P pp x y \<in> set (snd (visitPair P pp thr a b st))"
  proof (cases "pairKey x y \<in> set (fst st)")
    case True
    then have "candidateOf P pp x y \<in> set (snd st)" using assms(3) e t by (simp add: covered_def)
    then show ?thesis by (simp add: visitPair_snd)
  next
    case False
    then have k: "pairKey x y = pairKey a b" and n: "pairKey a b \<notin> set (fst st)"
      using s by (auto simp: visitPair_fst split: if_splits)
    then have "x = a \<and> y = b" using assms(1,2) e by (simp add: keyInj_def)
    then show ?thesis using n t by (simp add: visitPair_snd)
  qed
qed

lemma visitPair_seen:
  "set (fst st) \<subseteq> set (fst (visitPair P pp thr a b st)) \<and>
   pairKey a b \<in> set (fst (visitPair P pp thr a b st))"
  by (auto simp: visitPair_fst)

lemma inner_covered:
  "keyInj E \<Longrightarrow> \<forall>b\<in>set rest. E a b \<Longrightarrow> covered P pp thr E st \<Longrightarrow>
   covered P pp thr E (foldl (\<lambda>s b. visitPair P pp thr a b s) st rest)"
  by (induction rest arbitrary: st) (simp_all add: visitPair_covered)

lemma inner_seen:
  "set (fst st) \<subseteq> set (fst (foldl (\<lambda>s b. visitPair P pp thr a b s) st rest)) \<and>
   (\<forall>b\<in>set rest. pairKey a b \<in> set (fst (foldl (\<lambda>s b. visitPair P pp thr a b s) st rest)))"
proof (induction rest arbitrary: st)
  case Nil
  then show ?case by simp
next
  case (Cons b rest)
  show ?case
    using Cons.IH[of "visitPair P pp thr a b st"] visitPair_seen[of st P pp thr a b]
    by auto
qed

lemma blockPairs_covered:
  "keyInj E \<Longrightarrow> \<forall>x y. orderedIn x y block \<longrightarrow> E x y \<Longrightarrow> covered P pp thr E st \<Longrightarrow>
   covered P pp thr E (blockPairs P pp thr block st)"
proof (induction block arbitrary: st)
  case Nil
  then show ?case by simp
next
  case (Cons a rest)
  have 1: "\<forall>b\<in>set rest. E a b" using Cons.prems(2) by (simp add: orderedIn_Cons)
  have 2: "\<forall>x y. orderedIn x y rest \<longrightarrow> E x y" using Cons.prems(2) by (simp add: orderedIn_Cons)
  show ?case
    using Cons.IH[OF Cons.prems(1) 2] inner_covered[OF Cons.prems(1) 1 Cons.prems(3)]
    by simp
qed

lemma blockPairs_seen:
  "set (fst st) \<subseteq> set (fst (blockPairs P pp thr block st)) \<and>
   (\<forall>x y. orderedIn x y block \<longrightarrow> pairKey x y \<in> set (fst (blockPairs P pp thr block st)))"
proof (induction block arbitrary: st)
  case Nil
  then show ?case by (simp add: orderedIn_Nil)
next
  case (Cons a rest)
  let ?st = "foldl (\<lambda>s b. visitPair P pp thr a b s) st rest"
  note i = inner_seen[of st P pp thr a rest]
  note h = Cons.IH[of ?st]
  show ?case using i h by (auto simp: orderedIn_Cons)
qed

lemma blocks_covered:
  "keyInj E \<Longrightarrow> \<forall>block\<in>set blocks. \<forall>x y. orderedIn x y block \<longrightarrow> E x y \<Longrightarrow>
   covered P pp thr E st \<Longrightarrow>
   covered P pp thr E (foldl (\<lambda>st block. blockPairs P pp thr block st) st blocks)"
proof (induction blocks arbitrary: st)
  case Nil
  then show ?case by simp
next
  case (Cons block blocks)
  have 1: "\<forall>x y. orderedIn x y block \<longrightarrow> E x y" using Cons.prems(2) by simp
  have 2: "\<forall>block\<in>set blocks. \<forall>x y. orderedIn x y block \<longrightarrow> E x y" using Cons.prems(2) by simp
  show ?case
    using Cons.IH[OF Cons.prems(1) 2] blockPairs_covered[OF Cons.prems(1) 1 Cons.prems(3)]
    by simp
qed

lemma blocks_seen:
  "set (fst st) \<subseteq> set (fst (foldl (\<lambda>st block. blockPairs P pp thr block st) st blocks)) \<and>
   (\<forall>block\<in>set blocks. \<forall>x y. orderedIn x y block \<longrightarrow>
       pairKey x y \<in> set (fst (foldl (\<lambda>st block. blockPairs P pp thr block st) st blocks)))"
proof (induction blocks arbitrary: st)
  case Nil
  then show ?case by simp
next
  case (Cons block blocks)
  note b = blockPairs_seen[of st P pp thr block]
  note h = Cons.IH[of "blockPairs P pp thr block st"]
  show ?case using b h by auto
qed

lemma collectCandidates_member:
  assumes ord: "orderedIn a b contacts"
      and d: "distinct (map cid contacts)"
      and nc: "\<forall>c\<in>set contacts. 0x3A \<notin> set (cid c)"
      and key: "set (blockKeys P a) \<inter> set (blockKeys P b) \<noteq> {}"
      and thr: "thr \<le> cmp_confidence (compareContacts P pp a b)"
  shows "candidateOf P pp a b \<in> set (collectCandidates P pp thr contacts)"
proof -
  let ?E = "\<lambda>x y. orderedIn x y contacts"
  let ?blocks = "map snd (buildBlocks P contacts)"
  let ?fin = "foldl (\<lambda>st block. blockPairs P pp thr block st) ([], []) ?blocks"
  have inj: "keyInj ?E" using d nc by (rule keyInj_orderedIn)
  have sub: "\<forall>block\<in>set ?blocks. \<forall>x y. orderedIn x y block \<longrightarrow> ?E x y"
    using orderedIn_filter by (fastforce simp: buildBlocks_member)
  have c0: "covered P pp thr ?E ([], [])" by (simp add: covered_def)
  have cov: "covered P pp thr ?E ?fin" using inj sub c0 by (rule blocks_covered)
  from key obtain k where k: "k \<in> set (blockKeys P a)" "k \<in> set (blockKeys P b)" by auto
  let ?bl = "filter (\<lambda>c. k \<in> set (blockKeys P c)) contacts"
  have ob: "orderedIn a b ?bl" using ord k by (simp add: filter_orderedIn)
  then have "?bl \<noteq> []" using orderedIn_Nil by metis
  then have "(k, ?bl) \<in> set (buildBlocks P contacts)" by (simp add: buildBlocks_member)
  then have "?bl \<in> set ?blocks" by force
  then have "pairKey a b \<in> set (fst ?fin)"
    using blocks_seen[of "([], [])" P pp thr ?blocks] ob by blast
  then have "candidateOf P pp a b \<in> set (snd ?fin)"
    using cov ord thr by (simp add: covered_def)
  then show ?thesis by (simp add: collectCandidates_def)
qed

subsection \<open>Sorting and truncation of the candidates\<close>

lemma set_insertSorted: "set (insertSorted cmp x ys) = insert x (set ys)"
  by (induction ys) auto

lemma set_jsSort: "set (jsSort cmp xs) = set xs"
  by (induction xs) (simp_all add: jsSort_def set_insertSorted)

lemma filter_insertSorted_length:
  "length (filter p (insertSorted cmp x ys)) = length (filter p (x # ys))"
  by (induction ys) auto

lemma filter_jsSort_length: "length (filter p (jsSort cmp xs)) = length (filter p xs)"
proof (induction xs)
  case Nil
  then show ?case by (simp add: jsSort_def)
next
  case (Cons x xs)
  have "jsSort cmp (x # xs) = insertSorted cmp x (jsSort cmp xs)" by (simp add: jsSort_def)
  then show ?case using Cons by (simp add: filter_insertSorted_length)
qed

lemma byConfidenceDescending_le:
  "(byConfidenceDescending x y \<le> 0) = (confidence y \<le> confidence x)"
  by (auto simp: byConfidenceDescending_def)

lemma sorted_insertSorted:
  "sorted_wrt (\<lambda>x y. confidence y \<le> confidence x) ys \<Longrightarrow>
   sorted_wrt (\<lambda>x y. confidence y \<le> confidence x) (insertSorted byConfidenceDescending x ys)"
proof (induction ys)
  case Nil
  then show ?case by simp
next
  case (Cons y ys)
  show ?case
  proof (cases "confidence y \<le> confidence x")
    case True
    then show ?thesis using Cons.prems by (auto simp: byConfidenceDescending_le)
  next
    case False
    then show ?thesis using Cons
      by (auto simp: byConfidenceDescending_le set_insertSorted)
  qed
qed

lemma sorted_jsSort:
  "sorted_wrt (\<lambda>x y. confidence y \<le> confidence x) (jsSort byConfidenceDescending xs)"
proof (induction xs)
  case Nil
  then show ?case by (simp add: jsSort_def)
next
  case (Cons x xs)
  have "jsSort byConfidenceDescending (x # xs) =
        insertSorted byConfidenceDescending x (jsSort byConfidenceDescending xs)"
    by (simp add: jsSort_def)
  then show ?case using Cons by (simp add: sorted_insertSorted)
qed

lemma sorted_filter_takeWhile:
  "sorted_wrt (\<lambda>x y. confidence y \<le> confidence x) s \<Longrightarrow>
   filter (\<lambda>c. v \<le> confidence c) s = takeWhile (\<lambda>c. v \<le> confidence c) s"
proof (induction s)
  case Nil
  then show ?case by simp
next
  case (Cons y ys)
  show ?case
  proof (cases "v \<le> confidence y")
    case True
    then show ?thesis using Cons by simp
  next
    case False
    then have "\<forall>z\<in>set ys. \<not> v \<le> confidence z" using Cons.prems by auto
    then have "filter (\<lambda>c. v \<le> confidence c) ys = []" by (simp add: filter_empty_conv)
    then show ?thesis using False by simp
  qed
qed

lemma sorted_take_member:
  assumes s: "sorted_wrt (\<lambda>x y. confidence y \<le> confidence x) s"
      and x: "x \<in> set s"
      and n: "length (filter (\<lambda>c. confidence x \<le> confidence c) s) \<le> n"
  shows "x \<in> set (take n s)"
proof -
  let ?p = "\<lambda>c. confidence x \<le> confidence c"
  have f: "filter ?p s = takeWhile ?p s" using s by (rule sorted_filter_takeWhile)
  have "x \<in> set (filter ?p s)" using x by simp
  then have "x \<in> set (takeWhile ?p s)" using f by simp
  then have "x \<in> set (take (length (takeWhile ?p s)) s)"
    using takeWhile_eq_take[of ?p s] by simp
  moreover have "length (takeWhile ?p s) \<le> n" using n f by simp
  ultimately show ?thesis using set_take_subset_set_take[of "length (takeWhile ?p s)" n s] by blast
qed

lemma sorted_sliceFromStart:
  "sorted_wrt R s \<Longrightarrow> sorted_wrt R (sliceFromStart s n)"
  by (simp add: sliceFromStart_def sorted_wrt_take)

lemma findDuplicates_sorted:
  "sorted_wrt (\<lambda>x y. confidence y \<le> confidence x) (findDuplicates P pp contacts opts)"
  by (simp add: findDuplicates_def Let_def sorted_sliceFromStart sorted_jsSort)

lemma findDuplicates_member:
  assumes x: "x \<in> set (collectCandidates P pp
                 (case threshold opts of Some t \<Rightarrow> t | None \<Rightarrow> 6 / 10) contacts)"
      and n: "int (length (filter (\<lambda>c. confidence x \<le> confidence c)
                 (collectCandidates P pp
                    (case threshold opts of Some t \<Rightarrow> t | None \<Rightarrow> 6 / 10) contacts)))
              \<le> truncateNumber (case limit opts of Some l \<Rightarrow> l | None \<Rightarrow> 50)"
  shows "x \<in> set (findDuplicates P pp contacts opts)"
proof -
  let ?thr = "case threshold opts of Some t \<Rightarrow> t | None \<Rightarrow> 6 / 10"
  let ?lim = "case limit opts of Some l \<Rightarrow> l | None \<Rightarrow> 50"
  let ?c = "collectCandidates P pp ?thr contacts"
  let ?s = "jsSort byConfidenceDescending ?c"
  have pos: "0 \<le> truncateNumber ?lim" using n by linarith
  have xs: "x \<in> set ?s" using x by (simp add: set_jsSort)
  have "length (filter (\<lambda>c. confidence x \<le> confidence c) ?s) \<le> nat (truncateNumber ?lim)"
    using n pos by (simp add: filter_jsSort_length)
  then have "x \<in> set (take (nat (truncateNumber ?lim)) ?s)"
    using sorted_take_member[OF sorted_jsSort xs] by blast
  then show ?thesis using pos by (simp add: findDuplicates_def Let_def sliceFromStart_def)
qed

text \<open>
  C2 (as stated, refuted).  Two records share the e-mail address and the organization
  name (up to case): the organization boost raises the score to 1.0.
\<close>

theorem shared_email_org_boost_counterexample:
  "emailMatch asciiPlatform (withOrg janeA (js ''Acme'')) (withOrg janeB (js ''ACME'')) \<noteq> None \<and>
   map confidence (findDuplicates asciiPlatform noPhoneParse
       [withOrg janeA (js ''Acme''), withOrg janeB (js ''ACME'')] defaultOptions) = [1]"
  by code_simp

text \<open>
  C2 (amended).  Two records sharing a normalized e-mail value score exactly 0.95,
  or exactly 1.0 when both carry a non-empty organization name and the two names are
  equal up to case; no other field changes the score.  In any list of records with
  distinct, colon-free identifiers in which \<open>a\<close> comes before \<open>b\<close>, if the two share a
  blocking key and the threshold is at most that score, the loops of \<open>findDuplicates\<close>
  push the candidate of the pair with that score; \<open>findDuplicates\<close> returns it if at
  most \<open>limit\<close> (truncated to an integer) of the candidates found score at least as
  much.  The list \<open>findDuplicates\<close> returns is in descending order of confidence.
  Lower-casing is the platform's, whatever it is.
\<close>

theorem shared_email_confidence:
  assumes shared:
    "set (map (\<lambda>e. normalizeEmail P (email_value e)) (emails a)) \<inter>
     set (map (\<lambda>e. normalizeEmail P (email_value e)) (emails b)) \<noteq> {}"
  shows "cmp_confidence (compareContacts P parsePhone a b) = (if orgMatch P a b then 1 else 95 / 100) \<and>
    ((\<exists>pre mid post. contacts = pre @ a # mid @ b # post) \<longrightarrow>
     distinct (map cid contacts) \<longrightarrow>
     (\<forall>c\<in>set contacts. 0x3A \<notin> set (cid c)) \<longrightarrow>
     set (blockKeys P a) \<inter> set (blockKeys P b) \<noteq> {} \<longrightarrow>
     (case threshold opts of Some t \<Rightarrow> t | None \<Rightarrow> 6 / 10) \<le> (if orgMatch P a b then 1 else 95 / 100) \<longrightarrow>
       \<lparr>contactA = toSummary a, contactB = toSummary b,
         confidence = (if orgMatch P a b then 1 else 95 / 100),
         matchedFields = cmp_matchedFields (compareContacts P parsePhone a b)\<rparr>
       \<in> set (collectCandidates P parsePhone
                (case threshold opts of Some t \<Rightarrow> t | None \<Rightarrow> 6 / 10) contacts) \<and>
       (int (length (filter (\<lambda>c. (if orgMatch P a b then 1 else 95 / 100) \<le> confidence c)
               (collectCandidates P parsePhone
                  (case threshold opts of Some t \<Rightarrow> t | None \<Rightarrow> 6 / 10) contacts)))
          \<le> truncateNumber (case limit opts of Some l \<Rightarrow> l | None \<Rightarrow> 50) \<longrightarrow>
        \<lparr>contactA = toSummary a, contactB = toSummary b,
          confidence = (if orgMatch P a b then 1 else 95 / 100),
          matchedFields = cmp_matchedFields (compareContacts P parsePhone a b)\<rparr>
        \<in> set (findDuplicates P parsePhone contacts opts))) \<and>
    sorted_wrt (\<lambda>x y. confidence y \<le> confidence x) (findDuplicates P parsePhone contacts opts)"
proof -
  let ?thr = "case threshold opts of Some t \<Rightarrow> t | None \<Rightarrow> 6 / 10"
  let ?v = "if orgMatch P a b then 1 else 95 / 100 :: rat"
  let ?cand = "\<lparr>contactA = toSummary a, contactB = toSummary b, confidence = ?v,
         matchedFields = cmp_matchedFields (compareContacts P parsePhone a b)\<rparr>"
  have e: "emailMatch P a b \<noteq> None" using shared emailMatch_shared[of P a b] by blast
  have c: "cmp_confidence (compareContacts P parsePhone a b) = ?v"
    using e by (simp add: compareContacts_confidence pairScore_email)
  have cand: "candidateOf P parsePhone a b = ?cand"
    by (simp add: candidateOf_def c)
  have cv: "confidence ?cand = ?v" by simp
  have m: "?cand \<in> set (collectCandidates P parsePhone ?thr contacts)"
    if o: "\<exists>pre mid post. contacts = pre @ a # mid @ b # post"
      and d: "distinct (map cid contacts)"
      and n: "\<forall>c\<in>set contacts. 0x3A \<notin> set (cid c)"
      and k: "set (blockKeys P a) \<inter> set (blockKeys P b) \<noteq> {}"
      and t: "?thr \<le> ?v"
  proof -
    have oi: "orderedIn a b contacts" using o by (auto simp: orderedIn_split)
    have t': "?thr \<le> cmp_confidence (compareContacts P parsePhone a b)" using t c by simp
    show ?thesis using collectCandidates_member[OF oi d n k t'] cand by simp
  qed
  have f: "?cand \<in> set (findDuplicates P parsePhone contacts opts)"
    if x: "?cand \<in> set (collectCandidates P parsePhone ?thr contacts)"
      and l: "int (length (filter (\<lambda>c. ?v \<le> confidence c)
               (collectCandidates P parsePhone ?thr contacts)))
          \<le> truncateNumber (case limit opts of Some l \<Rightarrow> l | None \<Rightarrow> 50)"
    using findDuplicates_member[OF x] l unfolding cv by blast
  have s: "sorted_wrt (\<lambda>x y. confidence y \<le> confidence x) (findDuplicates P parsePhone contacts opts)"
    by (rule findDuplicates_sorted)
  show ?thesis
    apply (intro conjI impI)
       apply (rule c)
      apply (rule m; assumption)
     apply (rule f)
      apply (rule m; assumption)
     apply assumption
    apply (rule s)
    done
qed

theorem shared_email_confidence_witness:
  "cmp_confidence (compareContacts asciiPlatform noPhoneParse janeA janeB) = 95 / 100 \<and>
   \<lparr>contactA = toSummary janeA, contactB = toSummary janeB, confidence = 95 / 100,
     matchedFields = cmp_matchedFields (compareContacts asciiPlatform noPhoneParse janeA janeB)\<rparr>
     \<in> set (findDuplicates asciiPlatform noPhoneParse [janeA, janeB] defaultOptions)"
proof -
  let ?P = asciiPlatform
  have s: "set (map (\<lambda>e. normalizeEmail ?P (email_value e)) (emails janeA)) \<inter>
           set (map (\<lambda>e. normalizeEmail ?P (email_value e)) (emails janeB)) \<noteq> {}"
    by code_simp
  have p: "\<exists>pre mid post. [janeA, janeB] = pre @ janeA # mid @ janeB # post"
    by (rule exI[of _ "[]"], rule exI[of _ "[]"], rule exI[of _ "[]"]) simp
  have d: "distinct (map cid [janeA, janeB])" by code_simp
  have n: "\<forall>c\<in>set [janeA, janeB]. 0x3A \<notin> set (cid c)"
    by (simp add: janeA_def janeB_def withEmail_def bareContact_def js_def)
  have k: "set (blockKeys ?P janeA) \<inter> set (blockKeys ?P janeB) \<noteq> {}"
    by code_simp
  have o: "\<not> orgMatch ?P janeA janeB"
    by code_simp
  have t: "(case threshold defaultOptions of Some t \<Rightarrow> t | None \<Rightarrow> 6 / 10)
             \<le> (if orgMatch ?P janeA janeB then 1 else 95 / 100 :: rat)"
    by (simp add: defaultOptions_def o)
  have l: "int (length (filter (\<lambda>c. (if orgMatch ?P janeA janeB then 1 else 95 / 100) \<le> confidence c)
               (collectCandidates ?P noPhoneParse
                  (case threshold defaultOptions of Some t \<Rightarrow> t | None \<Rightarrow> 6 / 10) [janeA, janeB])))
          \<le> truncateNumber (case limit defaultOptions of Some l \<Rightarrow> l | None \<Rightarrow> 50)"
    by code_simp
  show ?thesis
    using shared_email_confidence[OF s, of noPhoneParse "[janeA, janeB]" defaultOptions] p d n k t l o
    by simp
qed

section \<open>Properties of the store\<close>

subsection \<open>Rollback\<close>

lemma numberToString_example: "numberToString 1767225600000 = js ''1767225600000''"
  by (simp add: numberToString_def digitsOf.simps js_def)

lemma rollback_dry_run:
  assumes "lockMtime s = None" "safetyTagName env \<notin> set (tags s)" "dryRun opts = Some True"
  shows "rollback env opts s =
     (Inr \<lparr>revertedCommits = 0, safetyTag = safetyTagName env\<rparr>,
      s\<lparr>tags := tags s @ [safetyTagName env]\<rparr>)"
  using assms
  by (simp add: rollback_def withLock_def acquireLock_def gitTag_def releaseLock_def Let_def)

lemma rollback_to_tag_missing:
  assumes "lockMtime s = None" "safetyTagName env \<notin> set (tags s)"
    "dryRun opts \<noteq> Some True" "mode opts = ToTag" "tagName opts = Some t" "t \<noteq> []"
    "t \<notin> set (tags s)" "t \<noteq> safetyTagName env"
  shows "rollback env opts s =
     (Inl (StoreError (js ''Tag not found: '' @ t)), s\<lparr>tags := tags s @ [safetyTagName env]\<rparr>)"
  using assms
  by (simp add: rollback_def withLock_def acquireLock_def gitTag_def releaseLock_def Let_def truthy_def)

text \<open>
  C4 (evaluation at the failing input).  A \<open>to-commit\<close> rollback names a hash that no
  commit of the history has or starts with.  The loop never meets its stopping test:
  instead of failing with \<open>StoreError\<close>, \<open>rollback\<close> reverts every commit of the
  history, the initial one included, and reports success.
\<close>

theorem rollback_to_commit_unknown_hash_reverts_all:
  "filter (matchesHash (js ''deadbeef'')) (commits threeCommits) = [] \<and>
   fst (rollback exampleEnv (toCommitOptions (js ''deadbeef'')) threeCommits) =
     Inr \<lparr>revertedCommits = 3, safetyTag = js ''pre-rollback-1767225600000''\<rparr> \<and>
   map message (commits (snd (rollback exampleEnv (toCommitOptions (js ''deadbeef'')) threeCommits))) =
     [js ''Revert c1'', js ''Revert c2'', js ''Revert c3'',
      js ''Create contact: C'', js ''Create contact: B'', js ''Initial commit'']"
  by (simp add: rollback_def withLock_def acquireLock_def releaseLock_def gitTag_def gitLog_def
      exampleEnv_def threeCommits_def toCommitOptions_def truthy_def startsWith_def matchesHash_def
      safetyTagName_def exampleHash_def numberToString_example Let_def js_def)

subsection \<open>Reading and deleting\<close>

lemma get_notfound_iff:
  "get env i s = Inl (ContactNotFoundError i) \<longleftrightarrow>
     readFile (contactsDir s) i = None \<and> readFile (archiveDir s) i = None"
  by (auto simp: get_def split: option.splits)

lemma get_active_first:
  "readFile (contactsDir s) i = Some f \<Longrightarrow> get env i s = Inr (decodeFile env f)"
  by (simp add: get_def)

lemma get_archived_second:
  "readFile (contactsDir s) i = None \<Longrightarrow> readFile (archiveDir s) i = Some g \<Longrightarrow>
   get env i s = Inr (decodeFile env g)"
  by (simp add: get_def)

lemma get_lock: "get env i (s\<lparr>lockMtime := x\<rparr>) = get env i s"
  by (simp add: get_def split: option.splits)

lemma map_of_removeEntry:
  "map_of (removeEntry i files) k = (if k = i then None else map_of files k)"
  by (induction files) (auto simp: removeEntry_def)

lemma cid_normalize_create:
  "f_id flds = Some i \<Longrightarrow> cid (normalizeContact P pp (createContact nid now flds)) = i"
  by (simp add: normalizeContact_def createContact_def)

lemma create_effect:
  assumes "lockMtime s = None" "f_id flds = Some i" "contactsDir s = Some files"
  shows "fst (create env flds s) =
           Inr (normalizeContact (platform env) (parsePhoneNumber env)
                  (createContact (newId env) (nowIso env) flds)) \<and>
         readFile (contactsDir (snd (create env flds s))) i =
           Some (utf8RoundTrip (encodeContact env
              (normalizeContact (platform env) (parsePhoneNumber env)
                  (createContact (newId env) (nowIso env) flds)))) \<and>
         archiveDir (snd (create env flds s)) = archiveDir s \<and>
         lockMtime (snd (create env flds s)) = None"
  using assms
  by (simp add: create_def withLock_def acquireLock_def releaseLock_def gitCommit_def Let_def
      cid_normalize_create writeFile_def readFile_def setProp_map_of)

lemma delete_soft_effect:
  assumes "lockMtime s = None" "readFile (contactsDir s) i = Some f"
  shows "fst (delete env i False s) = Inr () \<and>
         contactsDir (snd (delete env i False s)) \<noteq> None \<and>
         readFile (contactsDir (snd (delete env i False s))) i = None \<and>
         readFile (archiveDir (snd (delete env i False s))) i = Some f \<and>
         lockMtime (snd (delete env i False s)) = None"
  using assms
  by (auto simp: delete_def withLock_def acquireLock_def releaseLock_def get_def
      gitMoveToArchive_def gitCommit_def readFile_def setProp_map_of map_of_removeEntry
      split: option.splits)

lemma update_effect:
  assumes "lockMtime s = None" "get env i s = Inr existing" "contactsDir s \<noteq> None"
  shows "fst (update env i u s) = Inr (updatedContact env u existing) \<and>
         readFile (contactsDir (snd (update env i u s))) i =
           Some (utf8RoundTrip (encodeContact env (updatedContact env u existing))) \<and>
         archiveDir (snd (update env i u s)) = archiveDir s \<and>
         lockMtime (snd (update env i u s)) = None"
  using assms
  by (auto simp: update_def withLock_def acquireLock_def releaseLock_def gitCommit_def Let_def
      get_lock writeFile_def readFile_def setProp_map_of)

lemma removeEntry_Nil: "removeEntry i files = [] \<Longrightarrow> k \<noteq> i \<Longrightarrow> map_of files k = None"
  using map_of_removeEntry[of i files k] by simp

lemma readFile_removeFrom:
  "removeFrom d i = Inr d' \<Longrightarrow> readFile d' k = (if k = i then None else readFile d k)"
  by (auto simp: removeFrom_def readFile_def map_of_removeEntry removeEntry_Nil
      split: option.splits if_splits)

lemma removeFrom_present: "readFile d i = Some f \<Longrightarrow> \<exists>d'. removeFrom d i = Inr d'"
  by (simp add: removeFrom_def)

lemma removeFrom_absent: "readFile d i = None \<Longrightarrow> isl (removeFrom d i)"
  by (simp add: removeFrom_def)

lemma permanent_delete_active:
  assumes "lockMtime s = None" "readFile (contactsDir s) i = Some f"
  shows "fst (delete env i True s) = Inr () \<and>
         readFile (contactsDir (snd (delete env i True s))) i = None \<and>
         archiveDir (snd (delete env i True s)) = archiveDir s"
proof -
  from removeFrom_present[OF assms(2)] obtain d' where d: "removeFrom (contactsDir s) i = Inr d'"
    by blast
  have r: "readFile d' i = None" using readFile_removeFrom[OF d, of i] by simp
  show ?thesis
    using assms d r
    by (simp add: delete_def withLock_def acquireLock_def releaseLock_def get_def gitRemove_def
        gitCommit_def)
qed

lemma permanent_delete_archived:
  assumes "lockMtime s = None" "readFile (contactsDir s) i = None"
    "readFile (archiveDir s) i = Some g"
  shows "fst (delete env i True s) = Inr () \<and>
         get env i (snd (delete env i True s)) = Inl (ContactNotFoundError i)"
proof -
  from removeFrom_present[OF assms(3)] obtain d' where d: "removeFrom (archiveDir s) i = Inr d'"
    by blast
  have r: "readFile d' i = None" using readFile_removeFrom[OF d, of i] by simp
  have a: "isl (removeFrom (contactsDir s) i)" using assms(2) by (rule removeFrom_absent)
  then obtain e where e: "removeFrom (contactsDir s) i = Inl e" by (cases "removeFrom (contactsDir s) i") auto
  show ?thesis
    using assms d r e
    by (simp add: delete_def withLock_def acquireLock_def releaseLock_def get_def gitRemove_def
        gitCommit_def)
qed

text \<open>
  C5 (evaluation at the failing input).  A record is created, archived by a soft
  delete, then updated: \<open>update\<close> reads it from the archive and writes the new text
  into the active area, so the record is now in both areas.  The permanent delete
  removes the active file only, and \<open>get\<close> still succeeds afterwards: it returns the
  archived record, as it was before the update.  This holds for every environment,
  record id, name and note.
\<close>

theorem get_after_permanent_delete_of_updated_archived:
  "(let s0 = init env noStore;
        created = normalizeContact (platform env) (parsePhoneNumber env)
                    (createContact (newId env) (nowIso env) (fieldsOf i n));
        s1 = snd (create env (fieldsOf i n) s0);
        s2 = snd (delete env i False s1);
        s3 = snd (update env i (notesOnly x) s2);
        s4 = snd (delete env i True s3)
    in fst (create env (fieldsOf i n) s0) = Inr created \<and>
       fst (delete env i False s1) = Inr () \<and>
       \<not> isl (fst (update env i (notesOnly x) s2)) \<and>
       fst (delete env i True s3) = Inr () \<and>
       readFile (contactsDir s4) i = None \<and>
       get env i s4 = Inr (decodeFile env (utf8RoundTrip (encodeContact env created))))"
proof -
  define s0 where "s0 = init env noStore"
  define created where "created = normalizeContact (platform env) (parsePhoneNumber env)
                    (createContact (newId env) (nowIso env) (fieldsOf i n))"
  define f where "f = utf8RoundTrip (encodeContact env created)"
  define s1 where "s1 = snd (create env (fieldsOf i n) s0)"
  define s2 where "s2 = snd (delete env i False s1)"
  define s3 where "s3 = snd (update env i (notesOnly x) s2)"
  define s4 where "s4 = snd (delete env i True s3)"
  have i0: "lockMtime s0 = None" "contactsDir s0 = Some []"
    by (simp_all add: s0_def init_def noStore_def gitCommit_def Let_def)
  have fi: "f_id (fieldsOf i n) = Some i" by (simp add: fieldsOf_def)
  note c = create_effect[OF i0(1) fi i0(2), of env, folded created_def s1_def f_def]
  have c1: "fst (create env (fieldsOf i n) s0) = Inr created"
    and c2: "readFile (contactsDir s1) i = Some f" and c3: "lockMtime s1 = None"
    using c by simp_all
  note d = delete_soft_effect[OF c3 c2, of env, folded s2_def]
  have d1: "fst (delete env i False s1) = Inr ()" and d2: "contactsDir s2 \<noteq> None"
    and d3: "readFile (contactsDir s2) i = None" and d4: "readFile (archiveDir s2) i = Some f"
    and d5: "lockMtime s2 = None"
    using d by simp_all
  have g: "get env i s2 = Inr (decodeFile env f)" using d3 d4 by (rule get_archived_second)
  note u = update_effect[OF d5 g d2, of "notesOnly x", folded s3_def]
  have u1: "\<not> isl (fst (update env i (notesOnly x) s2))"
    and u2: "readFile (contactsDir s3) i =
               Some (utf8RoundTrip (encodeContact env (updatedContact env (notesOnly x) (decodeFile env f))))"
    and u3: "readFile (archiveDir s3) i = Some f" and u4: "lockMtime s3 = None"
    using u d4 by simp_all
  note p = permanent_delete_active[OF u4 u2, of env, folded s4_def]
  have p1: "fst (delete env i True s3) = Inr ()" and p2: "readFile (contactsDir s4) i = None"
    and p3: "readFile (archiveDir s4) i = Some f"
    using p u3 by simp_all
  have p4: "get env i s4 = Inr (decodeFile env f)" using p2 p3 by (rule get_archived_second)
  show ?thesis
    unfolding Let_def
    using c1 d1 u1 p1 p2 p4
    unfolding s0_def s1_def s2_def s3_def s4_def f_def created_def
    by simp
qed

end
